theory Spec2Isabelle
  imports Main "HOL-Library.Sublist"
begin

section \<open>Exceptions\<close>

text \<open>
  Every \<^verbatim>\<open>throw\<close> of the scripts, and every exception the JavaScript runtime raises on
  their behalf, is a value of \<open>js_error\<close>; a function that can throw returns
  \<open>js_error + 'a\<close> with \<open>Inl\<close> for the exception.  \<open>Unmodelled\<close> is not an exception of
  the program: it marks a regular expression that uses a construct outside the fragment
  of the pattern language embedded below, where this development makes no statement.
\<close>

datatype js_error =
    SyntaxError
  | TypeError
  | Failure string
  | HttpError nat
  | NetworkError
  | Unmodelled

section \<open>Strings\<close>

text \<open>
  Text is a \<open>string\<close> of 8-bit characters.  \<open>toLowerCase\<close> and the case folding of the
  \<^verbatim>\<open>i\<close> flag are those of JavaScript on ASCII text; a character above 127 is left as
  it is.
\<close>

definition charToLower :: "char \<Rightarrow> char" where
  "charToLower c =
     (let n = (of_char c :: nat) in if 65 \<le> n \<and> n \<le> 90 then char_of (n + 32) else c)"

definition toLowerCase :: "string \<Rightarrow> string" where
  "toLowerCase s = map charToLower s"

definition canonicalize :: "char \<Rightarrow> char" where
  "canonicalize c =
     (let n = (of_char c :: nat) in if 97 \<le> n \<and> n \<le> 122 then char_of (n - 32) else c)"

definition isWordChar :: "char \<Rightarrow> bool" where
  "isWordChar c =
     (let n = (of_char c :: nat) in
        (48 \<le> n \<and> n \<le> 57) \<or> (65 \<le> n \<and> n \<le> 90) \<or> n = 95 \<or> (97 \<le> n \<and> n \<le> 122))"

definition isLineTerminator :: "char \<Rightarrow> bool" where
  "isLineTerminator c = (c = CHR 0x0A \<or> c = CHR 0x0D)"

text \<open>\<^verbatim>\<open>xs.join(sep)\<close>\<close>

fun join :: "string \<Rightarrow> string list \<Rightarrow> string" where
  "join sep [] = []"
| "join sep [x] = x"
| "join sep (x # y # ys) = x @ sep @ join sep (y # ys)"

text \<open>\<^verbatim>\<open>s.split('/')\<close>: the pieces between the separators, at least one piece.\<close>

fun split_on :: "char \<Rightarrow> string \<Rightarrow> string list" where
  "split_on d [] = [[]]"
| "split_on d (c # cs) =
     (if c = d then [] # split_on d cs
      else (case split_on d cs of
              [] \<Rightarrow> [[c]]
            | p # ps \<Rightarrow> (c # p) # ps))"

section \<open>The fragment of the RegExp pattern language\<close>

text \<open>
  \<^verbatim>\<open>new RegExp(pattern, 'gi')\<close> is embedded for patterns made of pattern characters,
  the atom \<^verbatim>\<open>.\<close>, the assertion \<^verbatim>\<open>\b\<close> and the quantifiers \<^verbatim>\<open>*\<close>, \<^verbatim>\<open>+\<close>, \<^verbatim>\<open>?\<close>
  (greedy, or lazy with a following \<^verbatim>\<open>?\<close>).  A quantifier with nothing to repeat and a
  backslash at the end of the pattern are the runtime's \<open>SyntaxError\<close>.  Groups,
  classes, braces, alternation, anchors and every other escape are \<open>Unmodelled\<close>.
\<close>

datatype atom = PatternCharacter char | AnyChar

datatype quantifier = Star | Plus | Opt

datatype rx_term =
    WordBoundary
  | Single atom
  | Repeat atom quantifier bool

definition quantifierOf :: "char \<Rightarrow> quantifier option" where
  "quantifierOf c =
     (if c = CHR ''*'' then Some Star
      else if c = CHR ''+'' then Some Plus
      else if c = CHR ''?'' then Some Opt
      else None)"

definition consTerm :: "rx_term \<Rightarrow> js_error + rx_term list \<Rightarrow> js_error + rx_term list" where
  "consTerm t r = (case r of Inl e \<Rightarrow> Inl e | Inr ts \<Rightarrow> Inr (t # ts))"

fun parsePattern :: "string \<Rightarrow> js_error + rx_term list" where
  "parsePattern [] = Inr []"
| "parsePattern (c # cs) =
     (if c = CHR 0x5C then
        (case cs of
           [] \<Rightarrow> Inl SyntaxError
         | d # ds \<Rightarrow>
             if d = CHR ''b'' then consTerm WordBoundary (parsePattern ds)
             else Inl Unmodelled)
      else if quantifierOf c \<noteq> None then Inl SyntaxError
      else if c \<in> set ''^$()[]{}|'' then Inl Unmodelled
      else
        (let a = (if c = CHR ''.'' then AnyChar else PatternCharacter c) in
           case cs of
             [] \<Rightarrow> Inr [Single a]
           | q # qs \<Rightarrow>
               (case quantifierOf q of
                  None \<Rightarrow> consTerm (Single a) (parsePattern cs)
                | Some qt \<Rightarrow>
                    (case qs of
                       [] \<Rightarrow> Inr [Repeat a qt True]
                     | l # ls \<Rightarrow>
                         if l = CHR ''?'' then consTerm (Repeat a qt False) (parsePattern ls)
                         else consTerm (Repeat a qt True) (parsePattern qs)))))"

fun atomMatches :: "atom \<Rightarrow> char \<Rightarrow> bool" where
  "atomMatches (PatternCharacter p) c = (canonicalize p = canonicalize c)"
| "atomMatches AnyChar c = (\<not> isLineTerminator c)"

text \<open>
  \<open>isWordBoundary prev rest\<close>: the position between the character \<open>prev\<close> (absent at
  the start of the text) and the first character of \<open>rest\<close> (absent at its end).
\<close>

definition isWordBoundary :: "char option \<Rightarrow> string \<Rightarrow> bool" where
  "isWordBoundary prev rest =
     ((case prev of None \<Rightarrow> False | Some p \<Rightarrow> isWordChar p)
      \<noteq> (case rest of [] \<Rightarrow> False | c # _ \<Rightarrow> isWordChar c))"

text \<open>
  \<open>firstSome a b\<close> is the backtracking choice: the first alternative that matches.
\<close>

definition firstSome :: "nat option \<Rightarrow> nat option \<Rightarrow> nat option" where
  "firstSome a b = (case a of Some n \<Rightarrow> Some n | None \<Rightarrow> b)"

text \<open>
  \<open>matchHere ts prev rest\<close>: the length of the match of the terms \<open>ts\<close> that starts at
  the position before \<open>rest\<close>, or \<open>None\<close>.  A greedy quantifier tries one more
  repetition before the rest of the pattern, a lazy one the rest of the pattern first.
\<close>

fun matchHere :: "rx_term list \<Rightarrow> char option \<Rightarrow> string \<Rightarrow> nat option" where
  "matchHere [] prev rest = Some 0"
| "matchHere (WordBoundary # ts) prev rest =
     (if isWordBoundary prev rest then matchHere ts prev rest else None)"
| "matchHere (Single a # ts) prev [] = None"
| "matchHere (Single a # ts) prev (c # cs) =
     (if atomMatches a c then map_option Suc (matchHere ts (Some c) cs) else None)"
| "matchHere (Repeat a Plus g # ts) prev [] = None"
| "matchHere (Repeat a Plus g # ts) prev (c # cs) =
     (if atomMatches a c then map_option Suc (matchHere (Repeat a Star g # ts) (Some c) cs)
      else None)"
| "matchHere (Repeat a Opt g # ts) prev [] = matchHere ts prev []"
| "matchHere (Repeat a Opt g # ts) prev (c # cs) =
     (if atomMatches a c then
        (if g then firstSome (map_option Suc (matchHere ts (Some c) cs)) (matchHere ts prev (c # cs))
         else firstSome (matchHere ts prev (c # cs)) (map_option Suc (matchHere ts (Some c) cs)))
      else matchHere ts prev (c # cs))"
| "matchHere (Repeat a Star g # ts) prev [] = matchHere ts prev []"
| "matchHere (Repeat a Star g # ts) prev (c # cs) =
     (if atomMatches a c then
        (if g then firstSome (map_option Suc (matchHere (Repeat a Star g # ts) (Some c) cs))
                             (matchHere ts prev (c # cs))
         else firstSome (matchHere ts prev (c # cs))
                        (map_option Suc (matchHere (Repeat a Star g # ts) (Some c) cs)))
      else matchHere ts prev (c # cs))"

text \<open>
  The loop of \<^verbatim>\<open>String.prototype.match\<close> under the \<^verbatim>\<open>g\<close> flag, counting: the next
  search starts where the last match ended, one character further after an empty
  match.  \<open>skip\<close> is the number of characters still covered by the last match.
\<close>

fun matchAll :: "rx_term list \<Rightarrow> char option \<Rightarrow> string \<Rightarrow> nat \<Rightarrow> nat" where
  "matchAll ts prev [] skip =
     (if 0 < skip then 0 else case matchHere ts prev [] of None \<Rightarrow> 0 | Some _ \<Rightarrow> 1)"
| "matchAll ts prev (c # cs) skip =
     (if 0 < skip then matchAll ts (Some c) cs (skip - 1)
      else case matchHere ts prev (c # cs) of
             None \<Rightarrow> matchAll ts (Some c) cs 0
           | Some n \<Rightarrow> 1 + matchAll ts (Some c) cs (n - 1))"

text \<open>\<^verbatim>\<open>(text.match(new RegExp(pattern, 'gi')) || []).length\<close>\<close>

definition matchCount :: "string \<Rightarrow> string \<Rightarrow> js_error + nat" where
  "matchCount pattern text =
     (case parsePattern pattern of
        Inl e \<Rightarrow> Inl e
      | Inr ts \<Rightarrow> Inr (matchAll ts None text 0))"


section \<open>Truthiness\<close>

text \<open>
  A property of a JavaScript object may be absent; \<open>None\<close> stands for \<^verbatim>\<open>undefined\<close> and
  \<^verbatim>\<open>null\<close> alike.  In a condition the empty string and the number 0 are false as
  well.
\<close>

definition truthy :: "string option \<Rightarrow> bool" where
  "truthy v = (case v of None \<Rightarrow> False | Some s \<Rightarrow> s \<noteq> [])"

definition truthyNum :: "int option \<Rightarrow> bool" where
  "truthyNum v = (case v of None \<Rightarrow> False | Some n \<Rightarrow> n \<noteq> 0)"

text \<open>\<^verbatim>\<open>a || b\<close> on numbers\<close>

definition orNum :: "int option \<Rightarrow> int option \<Rightarrow> int option" where
  "orNum a b = (if truthyNum a then a else b)"

section \<open>Records of the pipeline\<close>

text \<open>
  A repository as the extractor hands it over (\<open>name\<close> to \<open>forks\<close>), with the
  properties the enricher adds, absent until then.
\<close>

record repo =
  name :: "string option"
  url :: "string option"
  description :: "string option"
  language :: "string option"
  starsAdded :: "int option"
  stars :: "int option"
  forks :: "int option"
  readmeContent :: "string option"
  topics :: "string list option"
  createdAt :: "string option"
  updatedAt :: "string option"
  forksCount :: "int option"
  starsCount :: "int option"
  watchersCount :: "int option"
  openIssuesCount :: "int option"

text \<open>
  The analysed repository
  \<^verbatim>\<open>{...repo, relevanceScore, matchedKeywords, aiSummary}\<close>.
\<close>

record analysis = repo +
  relevanceScore :: int
  matchedKeywords :: "string list"
  aiSummary :: "string option"

text \<open>
  The configuration after \<^verbatim>\<open>loadConfiguration\<close>, which replaces a missing language or
  keyword list by the empty list.
\<close>

record config =
  target_languages :: "string list"
  topic_keywords :: "string list"
  enable_ai_summaries :: "bool option"
  max_ai_summaries :: "int option"

text \<open>\<^verbatim>\<open>process.env\<close>\<close>

type_synonym env = "string \<Rightarrow> string option"

section \<open>LanguageFilter\<close>

record LanguageFilter =
  targetLanguages :: "string list"

definition new_LanguageFilter :: "string list \<Rightarrow> LanguageFilter" where
  "new_LanguageFilter langs = \<lparr>targetLanguages = map toLowerCase langs\<rparr>"

definition filter_repos :: "LanguageFilter \<Rightarrow> repo list \<Rightarrow> repo list" where
  "filter_repos this repos =
     (if length (targetLanguages this) = 0 then repos
      else filter
             (\<lambda>r. let repoLanguage =
                          toLowerCase (if truthy (language r) then the (language r) else [])
                  in repoLanguage \<in> set (targetLanguages this))
             repos)"

section \<open>SmartAnalyzer\<close>

record SmartAnalyzer =
  topicKeywords :: "string list"
  enableAISummaries :: bool
  maxAISummaries :: int
  openaiApiKey :: "string option"

definition new_SmartAnalyzer :: "env \<Rightarrow> config \<Rightarrow> SmartAnalyzer" where
  "new_SmartAnalyzer environment cfg =
     (let enable = (enable_ai_summaries cfg \<noteq> Some False);
          key = environment ''OPENAI_API_KEY''
      in \<lparr>topicKeywords = topic_keywords cfg,
          enableAISummaries =
            (if truthy key \<and> enable then enable else if enable then False else enable),
          maxAISummaries =
            (if truthyNum (max_ai_summaries cfg) then the (max_ai_summaries cfg) else 10),
          openaiApiKey = key\<rparr>)"

text \<open>The object \<^verbatim>\<open>{score, keywords}\<close> that \<^verbatim>\<open>findKeywordMatches\<close> returns.\<close>

record keyword_matches =
  kw_score :: int
  kw_keywords :: "string list"

text \<open>The escape \<^verbatim>\<open>\b\<close> of the template literal.\<close>

definition wordBoundaryEscape :: string where
  "wordBoundaryEscape = [CHR 0x5C, CHR ''b'']"

text \<open>
  The loop over \<^verbatim>\<open>this.topicKeywords\<close>; \<open>matched\<close> and \<open>score\<close> are the variables
  \<^verbatim>\<open>matchedKeywords\<close> and \<^verbatim>\<open>score\<close>.
\<close>

fun keywordLoop :: "string \<Rightarrow> string list \<Rightarrow> string list \<Rightarrow> int \<Rightarrow> js_error + keyword_matches" where
  "keywordLoop lowerText [] matched score = Inr \<lparr>kw_score = score, kw_keywords = matched\<rparr>"
| "keywordLoop lowerText (keyword # rest) matched score =
     (let lowerKeyword = toLowerCase keyword in
        case matchCount (wordBoundaryEscape @ lowerKeyword @ wordBoundaryEscape) lowerText of
          Inl e \<Rightarrow> Inl e
        | Inr exactMatches \<Rightarrow>
            (case matchCount lowerKeyword lowerText of
               Inl e \<Rightarrow> Inl e
             | Inr partialMatches \<Rightarrow>
                 (let matches = max exactMatches partialMatches in
                    if 0 < matches
                    then keywordLoop lowerText rest (matched @ [keyword]) (score + int matches)
                    else keywordLoop lowerText rest matched score)))"

definition findKeywordMatches :: "SmartAnalyzer \<Rightarrow> string \<Rightarrow> js_error + keyword_matches" where
  "findKeywordMatches this text =
     (if text = [] \<or> length (topicKeywords this) = 0
      then Inr \<lparr>kw_score = 0, kw_keywords = []\<rparr>
      else keywordLoop (toLowerCase text) (topicKeywords this) [] 0)"

text \<open>\<^verbatim>\<open>[...new Set(xs)]\<close>: the elements in the order of their first occurrence.\<close>

fun setInsert :: "'a list \<Rightarrow> 'a list \<Rightarrow> 'a list" where
  "setInsert seen [] = seen"
| "setInsert seen (x # xs) =
     (if x \<in> set seen then setInsert seen xs else setInsert (seen @ [x]) xs)"

definition uniqueOf :: "'a list \<Rightarrow> 'a list" where
  "uniqueOf xs = setInsert [] xs"

text \<open>
  One \<^verbatim>\<open>if\<close> block of \<^verbatim>\<open>basicAnalysis\<close>: the text of a field, when the block is
  entered, adds \<open>weight\<close> times its score and all its keywords.
\<close>

definition addField ::
  "SmartAnalyzer \<Rightarrow> string option \<Rightarrow> int \<Rightarrow> int \<times> string list \<Rightarrow> js_error + int \<times> string list" where
  "addField this field weight acc =
     (case field of
        None \<Rightarrow> Inr acc
      | Some text \<Rightarrow>
          (case findKeywordMatches this text of
             Inl e \<Rightarrow> Inl e
           | Inr m \<Rightarrow> Inr (fst acc + kw_score m * weight, snd acc @ kw_keywords m)))"

definition basicAnalysis :: "SmartAnalyzer \<Rightarrow> repo \<Rightarrow> js_error + analysis" where
  "basicAnalysis this r =
     (case addField this (if truthy (description r) then description r else None) 5 (0, []) of
        Inl e \<Rightarrow> Inl e
      | Inr acc1 \<Rightarrow>
          (case addField this (if truthy (readmeContent r) then readmeContent r else None) 1 acc1 of
             Inl e \<Rightarrow> Inl e
           | Inr acc2 \<Rightarrow>
               (case addField this (map_option (join '' '') (topics r)) 3 acc2 of
                  Inl e \<Rightarrow> Inl e
                | Inr acc3 \<Rightarrow>
                    Inr (repo.extend r
                           \<lparr>relevanceScore = fst acc3,
                            matchedKeywords = uniqueOf (snd acc3),
                            aiSummary = None\<rparr>))))"

text \<open>
  \<^verbatim>\<open>generateAISummary\<close> returns its placeholder sentence; the prompt it builds goes to
  the log only.  The sentence starts with the nine bytes the source file has there.
\<close>

definition generateAISummary :: "SmartAnalyzer \<Rightarrow> repo \<Rightarrow> string list \<Rightarrow> js_error + string" where
  "generateAISummary this r matched =
     (if \<not> truthy (openaiApiKey this) then Inl (Failure ''OpenAI API key not available'')
      else Inr ([CHR 0xC3, CHR 0xB0, CHR 0xC5, CHR 0xB8, CHR 0xC2, CHR 0xA4, CHR 0xE2, CHR 0x80, CHR 0x93]
                @ '' AI Summary: This repository appears relevant to your interests in ''
                @ join '', '' matched
                @ '' based on its description and README content.''))"

definition analyzeSingleRepo :: "SmartAnalyzer \<Rightarrow> repo \<Rightarrow> int \<Rightarrow> js_error + analysis" where
  "analyzeSingleRepo this r aiSummaryCount =
     (case basicAnalysis this r of
        Inl e \<Rightarrow> Inl e
      | Inr analysisResult \<Rightarrow>
          if enableAISummaries this \<and> 0 < relevanceScore analysisResult
             \<and> aiSummaryCount < maxAISummaries this
          then (case generateAISummary this r (matchedKeywords analysisResult) of
                  Inr s \<Rightarrow> Inr (analysisResult\<lparr>aiSummary := Some s\<rparr>)
                | Inl e \<Rightarrow> Inr (analysisResult\<lparr>aiSummary := None\<rparr>))
          else Inr analysisResult)"

text \<open>
  The loop of \<^verbatim>\<open>analyzeBatch\<close>; \<open>analyzedRepos\<close> and \<open>aiSummaryCount\<close> are its two
  variables.  A repository whose analysis throws is analysed again by
  \<^verbatim>\<open>basicAnalysis\<close> in the handler, outside any \<^verbatim>\<open>try\<close>.
\<close>

fun analyzeLoop :: "SmartAnalyzer \<Rightarrow> repo list \<Rightarrow> analysis list \<Rightarrow> int \<Rightarrow> js_error + analysis list" where
  "analyzeLoop this [] analyzedRepos aiSummaryCount = Inr analyzedRepos"
| "analyzeLoop this (r # rs) analyzedRepos aiSummaryCount =
     (case analyzeSingleRepo this r aiSummaryCount of
        Inr analyzedRepo \<Rightarrow>
          analyzeLoop this rs (analyzedRepos @ [analyzedRepo])
            (if truthy (aiSummary analyzedRepo) then aiSummaryCount + 1 else aiSummaryCount)
      | Inl error \<Rightarrow>
          (case basicAnalysis this r of
             Inl e \<Rightarrow> Inl e
           | Inr a \<Rightarrow> analyzeLoop this rs (analyzedRepos @ [a]) aiSummaryCount))"

definition analyzeBatch :: "SmartAnalyzer \<Rightarrow> repo list \<Rightarrow> js_error + analysis list" where
  "analyzeBatch this repos = analyzeLoop this repos [] 0"


section \<open>RadarGitHubAPI\<close>

text \<open>
  The body of a response (\<^verbatim>\<open>response.data\<close>), with the properties the enricher reads.
  \<open>content\<close> holds the README text already decoded from base64.
\<close>

record response_data =
  content :: "string option"
  topics_list :: "string list option"
  created_at :: "string option"
  updated_at :: "string option"
  forks_count :: "int option"
  stargazers_count :: "int option"
  watchers_count :: "int option"
  open_issues_count :: "int option"

text \<open>
  The HTTP client (the axios instance with its retries) is outside the scripts: a
  request takes a method and a URL, reads and changes the outside world \<open>'w\<close>, and
  answers with a body or is rejected.
\<close>

type_synonym 'w request =
  "string \<Rightarrow> string \<Rightarrow> 'w \<Rightarrow> (js_error + response_data option) \<times> 'w"

record 'w RadarGitHubAPI =
  githubToken :: string
  request :: "'w request"

definition getGitHubToken :: "env \<Rightarrow> string option" where
  "getGitHubToken environment =
     (case List.find (\<lambda>tokenName. truthy (environment tokenName))
             [''GITHUB_TOKEN'', ''GITHUB_TOKEN_BOT'', ''GITHUB_TOKEN_VITALETS''] of
        None \<Rightarrow> None
      | Some tokenName \<Rightarrow> environment tokenName)"

definition new_RadarGitHubAPI :: "env \<Rightarrow> 'w request \<Rightarrow> js_error + 'w RadarGitHubAPI" where
  "new_RadarGitHubAPI environment req =
     (case getGitHubToken environment of
        None \<Rightarrow> Inl (Failure ''GitHub token not found'')
      | Some token \<Rightarrow> Inr \<lparr>githubToken = token, request = req\<rparr>)"

definition charToUpper :: "char \<Rightarrow> char" where
  "charToUpper c =
     (let n = (of_char c :: nat) in if 97 \<le> n \<and> n \<le> 122 then char_of (n - 32) else c)"

definition toUpperCase :: "string \<Rightarrow> string" where
  "toUpperCase s = map charToUpper s"

definition fetchJson ::
  "'w RadarGitHubAPI \<Rightarrow> string \<Rightarrow> string \<Rightarrow> 'w \<Rightarrow> (js_error + response_data option) \<times> 'w" where
  "fetchJson this method endpoint w =
     (case request this (toUpperCase method) endpoint w of
        (Inr data, w') \<Rightarrow> (Inr data, w')
      | (Inl error, w') \<Rightarrow> (Inl error, w'))"

section \<open>ContentEnricher\<close>

record 'w ContentEnricher =
  githubApi :: "'w RadarGitHubAPI"

definition new_ContentEnricher :: "env \<Rightarrow> 'w request \<Rightarrow> js_error + 'w ContentEnricher" where
  "new_ContentEnricher environment req =
     (case new_RadarGitHubAPI environment req of
        Inl e \<Rightarrow> Inl e
      | Inr api \<Rightarrow> Inr \<lparr>githubApi = api\<rparr>)"

definition getReadmeContent ::
  "'w ContentEnricher \<Rightarrow> string \<Rightarrow> string \<Rightarrow> 'w \<Rightarrow> (js_error + string) \<times> 'w" where
  "getReadmeContent this owner repoName w =
     (case fetchJson (githubApi this) ''get'' (''/repos/'' @ owner @ ''/'' @ repoName @ ''/readme'') w of
        (Inl error, w') \<Rightarrow> (Inl error, w')
      | (Inr result, w') \<Rightarrow>
          (case result of
             None \<Rightarrow> (Inr [], w')
           | Some d \<Rightarrow>
               if truthy (content d) then (Inr (take 5000 (the (content d))), w')
               else (Inr [], w')))"

definition getRepoMetadata ::
  "'w ContentEnricher \<Rightarrow> string \<Rightarrow> string \<Rightarrow> 'w \<Rightarrow> (js_error + response_data option) \<times> 'w" where
  "getRepoMetadata this owner repoName w =
     fetchJson (githubApi this) ''get'' (''/repos/'' @ owner @ ''/'' @ repoName) w"

text \<open>\<^verbatim>\<open>repoMetadata?.field\<close>\<close>

definition optField :: "response_data option \<Rightarrow> (response_data \<Rightarrow> 'a option) \<Rightarrow> 'a option" where
  "optField repoMetadata field = (case repoMetadata of None \<Rightarrow> None | Some d \<Rightarrow> field d)"

text \<open>The element at index \<open>i\<close> of a destructured array, \<^verbatim>\<open>undefined\<close> beyond its end.\<close>

definition element :: "'a list \<Rightarrow> nat \<Rightarrow> 'a option" where
  "element xs i = (if i < length xs then Some (xs ! i) else None)"

definition enrichSingleRepo :: "'w ContentEnricher \<Rightarrow> repo \<Rightarrow> 'w \<Rightarrow> (js_error + repo) \<times> 'w" where
  "enrichSingleRepo this r w =
     (case name r of
        None \<Rightarrow> (Inl TypeError, w)
      | Some n \<Rightarrow>
          (let parts = split_on CHR ''/'' n;
               owner = element parts 0;
               repoName = element parts 1
           in if \<not> truthy owner \<or> \<not> truthy repoName then (Inr r, w)
              else
                (case getReadmeContent this (the owner) (the repoName) w of
                   (Inl error, w1) \<Rightarrow> (Inr r, w1)
                 | (Inr readme, w1) \<Rightarrow>
                     (case getRepoMetadata this (the owner) (the repoName) w1 of
                        (Inl error, w2) \<Rightarrow> (Inr r, w2)
                      | (Inr repoMetadata, w2) \<Rightarrow>
                          (Inr (r\<lparr>readmeContent := Some readme,
                                  topics := Some (case optField repoMetadata topics_list of
                                                    None \<Rightarrow> [] | Some ts \<Rightarrow> ts),
                                  createdAt := optField repoMetadata created_at,
                                  updatedAt := optField repoMetadata updated_at,
                                  forksCount := orNum (optField repoMetadata forks_count) (forks r),
                                  starsCount := orNum (optField repoMetadata stargazers_count) (stars r),
                                  watchersCount := optField repoMetadata watchers_count,
                                  openIssuesCount := optField repoMetadata open_issues_count\<rparr>),
                           w2)))))"

text \<open>The loop of \<^verbatim>\<open>enrichBatch\<close>, with its variable \<open>enrichedRepos\<close>.\<close>

fun enrichLoop :: "'w ContentEnricher \<Rightarrow> repo list \<Rightarrow> repo list \<Rightarrow> 'w \<Rightarrow> repo list \<times> 'w" where
  "enrichLoop this [] enrichedRepos w = (enrichedRepos, w)"
| "enrichLoop this (r # rs) enrichedRepos w =
     (case enrichSingleRepo this r w of
        (Inr enrichedRepo, w') \<Rightarrow> enrichLoop this rs (enrichedRepos @ [enrichedRepo]) w'
      | (Inl error, w') \<Rightarrow> enrichLoop this rs (enrichedRepos @ [r]) w')"

definition enrichBatch :: "'w ContentEnricher \<Rightarrow> repo list \<Rightarrow> 'w \<Rightarrow> repo list \<times> 'w" where
  "enrichBatch this repos w = enrichLoop this repos [] w"

section \<open>The two orchestrators\<close>

record radar =
  config :: config
  allRepos :: "repo list"
  filteredRepos :: "repo list"
  analysisResults :: "analysis list"
  finalReport :: string

definition new_radar :: "config \<Rightarrow> repo list \<Rightarrow> radar" where
  "new_radar cfg repos =
     \<lparr>config = cfg, allRepos = repos, filteredRepos = [], analysisResults = [], finalReport = []\<rparr>"

text \<open>
  \<^verbatim>\<open>for (let i = 0; i < xs.length; i += batchSize) batches.push(xs.slice(i, i + batchSize))\<close>.
  Both scripts fix \<open>batchSize\<close> (5 and 3); the loop is not entered with \<open>batchSize = 0\<close>
  here, where the script's loop would not end.
\<close>

function batchesFrom :: "nat \<Rightarrow> nat \<Rightarrow> 'a list \<Rightarrow> 'a list list" where
  "batchesFrom batchSize i xs =
     (if i < length xs \<and> 0 < batchSize
      then take batchSize (drop i xs) # batchesFrom batchSize (i + batchSize) xs
      else [])"
  by pat_completeness auto
termination
  by (relation "measure (\<lambda>(batchSize, i, xs). length xs - i)") auto

text \<open>
  The batch loop of \<^verbatim>\<open>PersonalizedRadar.analyzeRepos\<close>: an exception of a batch leaves
  the loop and the method.
\<close>

fun processBatches ::
  "'w ContentEnricher \<Rightarrow> SmartAnalyzer \<Rightarrow> repo list list \<Rightarrow> analysis list \<Rightarrow> 'w
     \<Rightarrow> (js_error + analysis list) \<times> 'w" where
  "processBatches contentEnricher smartAnalyzer [] results w = (Inr results, w)"
| "processBatches contentEnricher smartAnalyzer (batch # rest) results w =
     (case enrichBatch contentEnricher batch w of
        (enrichedBatch, w') \<Rightarrow>
          (case analyzeBatch smartAnalyzer enrichedBatch of
             Inl e \<Rightarrow> (Inl e, w')
           | Inr analyzedBatch \<Rightarrow>
               processBatches contentEnricher smartAnalyzer rest (results @ analyzedBatch) w'))"

definition PersonalizedRadar_analyzeRepos ::
  "env \<Rightarrow> 'w request \<Rightarrow> radar \<Rightarrow> 'w \<Rightarrow> (js_error + radar) \<times> 'w" where
  "PersonalizedRadar_analyzeRepos environment req this w =
     (let languageFilter = new_LanguageFilter (target_languages (config this));
          filtered = filter_repos languageFilter (allRepos this)
      in case new_ContentEnricher environment req of
           Inl e \<Rightarrow> (Inl e, w)
         | Inr contentEnricher \<Rightarrow>
             (let smartAnalyzer = new_SmartAnalyzer environment (config this);
                  batches = batchesFrom 5 0 filtered
              in case processBatches contentEnricher smartAnalyzer batches (analysisResults this) w of
                   (Inl e, w') \<Rightarrow> (Inl e, w')
                 | (Inr results, w') \<Rightarrow>
                     (Inr (this\<lparr>filteredRepos := filtered, analysisResults := results\<rparr>), w')))"

text \<open>
  \<^verbatim>\<open>StandaloneRadar.analyzeRepos\<close> wraps the body of the batch loop in \<^verbatim>\<open>try\<close>; the
  handler writes \<^verbatim>\<open>Batch i+1 failed\<close> with the exception to its logger and the loop goes
  on.  \<open>logged\<close> collects what the handler wrote.
\<close>

datatype log_entry = BatchFailed nat js_error

fun processBatchesStandalone ::
  "'w ContentEnricher \<Rightarrow> SmartAnalyzer \<Rightarrow> repo list list \<Rightarrow> nat \<Rightarrow> analysis list \<Rightarrow> log_entry list
     \<Rightarrow> 'w \<Rightarrow> (analysis list \<times> log_entry list) \<times> 'w" where
  "processBatchesStandalone contentEnricher smartAnalyzer [] i results logged w =
     ((results, logged), w)"
| "processBatchesStandalone contentEnricher smartAnalyzer (batch # rest) i results logged w =
     (case enrichBatch contentEnricher batch w of
        (enrichedBatch, w') \<Rightarrow>
          (case analyzeBatch smartAnalyzer enrichedBatch of
             Inl error \<Rightarrow>
               processBatchesStandalone contentEnricher smartAnalyzer rest (i + 1) results
                 (logged @ [BatchFailed (i + 1) error]) w'
           | Inr analyzedBatch \<Rightarrow>
               processBatchesStandalone contentEnricher smartAnalyzer rest (i + 1)
                 (results @ analyzedBatch) logged w'))"

definition StandaloneRadar_analyzeRepos ::
  "env \<Rightarrow> 'w request \<Rightarrow> radar \<Rightarrow> 'w \<Rightarrow> (js_error + radar \<times> log_entry list) \<times> 'w" where
  "StandaloneRadar_analyzeRepos environment req this w =
     (let languageFilter = new_LanguageFilter (target_languages (config this));
          filtered = filter_repos languageFilter (allRepos this)
      in case new_ContentEnricher environment req of
           Inl e \<Rightarrow> (Inl e, w)
         | Inr contentEnricher \<Rightarrow>
             (let smartAnalyzer = new_SmartAnalyzer environment (config this);
                  batches = batchesFrom 3 0 filtered
              in case processBatchesStandalone contentEnricher smartAnalyzer batches 0
                        (analysisResults this) [] w of
                   ((results, logged), w') \<Rightarrow>
                     (Inr (this\<lparr>filteredRepos := filtered, analysisResults := results\<rparr>, logged), w')))"

section \<open>Quantities the properties are stated with\<close>

text \<open>The number of matches of a regular expression that was built without exception.\<close>

definition countOf :: "js_error + nat \<Rightarrow> nat" where
  "countOf r = (case r of Inl _ \<Rightarrow> 0 | Inr n \<Rightarrow> n)"

text \<open>
  The whole-word and the substring match count of a keyword in a text, and the count the
  scorer takes for the pair.
\<close>

definition wholeWordCount :: "string \<Rightarrow> string \<Rightarrow> nat" where
  "wholeWordCount text keyword =
     countOf (matchCount (wordBoundaryEscape @ toLowerCase keyword @ wordBoundaryEscape)
                (toLowerCase text))"

definition substringCount :: "string \<Rightarrow> string \<Rightarrow> nat" where
  "substringCount text keyword = countOf (matchCount (toLowerCase keyword) (toLowerCase text))"

definition keywordCount :: "string \<Rightarrow> string \<Rightarrow> nat" where
  "keywordCount text keyword = max (wholeWordCount text keyword) (substringCount text keyword)"

text \<open>
  The match count of a field, summed over the configured keywords, and the keywords
  found in it, in configuration order.  An absent or empty field has neither.
\<close>

definition fieldCount :: "SmartAnalyzer \<Rightarrow> string option \<Rightarrow> int" where
  "fieldCount this field =
     (case field of
        None \<Rightarrow> 0
      | Some text \<Rightarrow>
          if text = [] then 0 else (\<Sum>kw\<leftarrow>topicKeywords this. int (keywordCount text kw)))"

definition fieldKeywords :: "SmartAnalyzer \<Rightarrow> string option \<Rightarrow> string list" where
  "fieldKeywords this field =
     (case field of
        None \<Rightarrow> []
      | Some text \<Rightarrow>
          if text = [] then [] else filter (\<lambda>kw. 0 < keywordCount text kw) (topicKeywords this))"

text \<open>The topic tags as the one text the scorer searches.\<close>

definition topicsText :: "repo \<Rightarrow> string option" where
  "topicsText r = map_option (join '' '') (topics r)"

text \<open>The language tag the filter compares: the empty string for a missing tag.\<close>

definition languageTag :: "repo \<Rightarrow> string" where
  "languageTag r = (case language r of None \<Rightarrow> [] | Some l \<Rightarrow> l)"

text \<open>The syntax characters of the pattern language.\<close>

definition isSyntaxCharacter :: "char \<Rightarrow> bool" where
  "isSyntaxCharacter c = (c = CHR 0x5C \<or> c \<in> set ''^$.*+?()[]{}|'')"

text \<open>
  \<^verbatim>\<open>analyzedRepos.filter(repo => repo.aiSummary).length\<close>, the count of summaries that
  \<^verbatim>\<open>getAnalysisStats\<close> reports.
\<close>

definition aiSummarized :: "analysis list \<Rightarrow> nat" where
  "aiSummarized analyzedRepos = length (filter (\<lambda>a. truthy (aiSummary a)) analyzedRepos)"

section \<open>Inputs of the examples\<close>

definition plainRepo :: "string \<Rightarrow> string option \<Rightarrow> string option \<Rightarrow> repo" where
  "plainRepo n lang desc =
     \<lparr>name = Some n, url = None, description = desc, language = lang, starsAdded = None,
      stars = None, forks = None, readmeContent = None, topics = None, createdAt = None,
      updatedAt = None, forksCount = None, starsCount = None, watchersCount = None,
      openIssuesCount = None\<rparr>"

definition keywordConfig :: "string list \<Rightarrow> config" where
  "keywordConfig kws =
     \<lparr>target_languages = [], topic_keywords = kws, enable_ai_summaries = None,
      max_ai_summaries = None\<rparr>"

definition bothTokens :: env where
  "bothTokens k =
     (if k = ''GITHUB_TOKEN'' then Some ''ghp'' else if k = ''OPENAI_API_KEY'' then Some ''sk''
      else None)"

text \<open>A client whose every request is rejected with status 404, in a world without state.\<close>

definition notFound :: "unit request" where
  "notFound method endpoint w = (Inl (HttpError 404), w)"

text \<open>
  A client that answers the README request of \<^verbatim>\<open>good/repo\<close> and its metadata request,
  and rejects every other request with status 403; the world counts the requests.
\<close>

definition partlyDown :: "nat request" where
  "partlyDown method endpoint w =
     (if endpoint = ''/repos/good/repo/readme''
      then (Inr (Some \<lparr>content = Some ''AI tools'', topics_list = None, created_at = None,
                       updated_at = None, forks_count = None, stargazers_count = None,
                       watchers_count = None, open_issues_count = None\<rparr>), Suc w)
      else if endpoint = ''/repos/good/repo''
      then (Inr (Some \<lparr>content = None, topics_list = Some [''ai''], created_at = None,
                       updated_at = None, forks_count = Some 7, stargazers_count = None,
                       watchers_count = None, open_issues_count = None\<rparr>), Suc w)
      else (Inl (HttpError 403), Suc w))"

text \<open>The record one pass of the loop of \<^verbatim>\<open>enrichBatch\<close> pushes for \<open>r\<close> in the world \<open>w\<close>.\<close>

definition enrichOrKeep :: "'w ContentEnricher \<Rightarrow> repo \<Rightarrow> 'w \<Rightarrow> repo" where
  "enrichOrKeep this r w = (case fst (enrichSingleRepo this r w) of Inr e \<Rightarrow> e | Inl error \<Rightarrow> r)"

text \<open>The enricher over the client \<open>partlyDown\<close>, and a batch for it.\<close>

definition partlyDownEnricher :: "nat ContentEnricher" where
  "partlyDownEnricher = \<lparr>githubApi = \<lparr>githubToken = ''ghp'', request = partlyDown\<rparr>\<rparr>"

definition mixedBatch :: "repo list" where
  "mixedBatch =
     [plainRepo ''bad/repo'' None None, plainRepo ''good/repo'' None None,
      plainRepo ''noslash'' None None, (plainRepo ''x/y'' None None)\<lparr>name := None\<rparr>]"

section \<open>The set of matched keywords\<close>

lemma remdups_app:
  "remdups (xs @ ys) = remdups (filter (\<lambda>x. x \<notin> set ys) xs) @ remdups ys"
  by (induction xs) auto

lemma setInsert_remdups:
  "distinct seen \<Longrightarrow> setInsert seen xs = rev (remdups (rev (seen @ xs)))"
proof (induction xs arbitrary: seen)
  case Nil
  then show ?case by (simp add: distinct_remdups_id)
next
  case (Cons x xs)
  show ?case
  proof (cases "x \<in> set seen")
    case True
    have f: "filter (\<lambda>y. y \<noteq> x \<and> y \<notin> set seen) (rev xs) = filter (\<lambda>y. y \<notin> set seen) (rev xs)"
      using True by (intro filter_cong) auto
    have "remdups (rev xs @ x # rev seen) = remdups (rev xs @ rev seen)"
      using True f
      by (simp add: remdups_app[of "rev xs" "x # rev seen"] remdups_app[of "rev xs" "rev seen"])
    with Cons True show ?thesis by simp
  next
    case False
    with Cons.prems have "distinct (seen @ [x])" by simp
    from Cons.IH[OF this] False show ?thesis by simp
  qed
qed

lemma uniqueOf_remdups: "uniqueOf xs = rev (remdups (rev xs))"
  by (simp add: uniqueOf_def setInsert_remdups)

lemma uniqueOf_distinct: "distinct (uniqueOf xs)"
  by (simp add: uniqueOf_remdups)

lemma uniqueOf_set: "set (uniqueOf xs) = set xs"
  by (simp add: uniqueOf_remdups)

lemma uniqueOf_append:
  "uniqueOf (xs @ ys) = uniqueOf xs @ filter (\<lambda>y. y \<notin> set xs) (uniqueOf ys)"
  by (simp add: uniqueOf_remdups remdups_app[of "rev ys" "rev xs"] rev_filter remdups_filter)

lemma uniqueOf_length:
  assumes "set xs \<subseteq> set ks"
  shows "length (uniqueOf xs) \<le> length ks"
proof -
  have "length (uniqueOf xs) = card (set xs)"
    using uniqueOf_distinct[of xs] uniqueOf_set[of xs] distinct_card by fastforce
  also have "\<dots> \<le> card (set ks)" using assms by (simp add: card_mono)
  also have "\<dots> \<le> length ks" by (rule card_length)
  finally show ?thesis .
qed

section \<open>The keyword loop\<close>

lemma keywordLoop_result:
  "keywordLoop (toLowerCase text) kws matched score = Inr m \<Longrightarrow>
     kw_score m = score + (\<Sum>kw\<leftarrow>kws. int (keywordCount text kw))
     \<and> kw_keywords m = matched @ filter (\<lambda>kw. 0 < keywordCount text kw) kws"
proof (induction kws arbitrary: matched score)
  case Nil
  then show ?case by auto
next
  case (Cons kw kws)
  from Cons.prems obtain e p where
    e: "matchCount (wordBoundaryEscape @ toLowerCase kw @ wordBoundaryEscape) (toLowerCase text) = Inr e"
    and p: "matchCount (toLowerCase kw) (toLowerCase text) = Inr p"
    by (auto simp: Let_def split: sum.splits)
  have k: "keywordCount text kw = max e p"
    by (simp add: keywordCount_def wholeWordCount_def substringCount_def countOf_def e p)
  show ?case
  proof (cases "0 < max e p")
    case True
    with Cons.prems e p
    have "keywordLoop (toLowerCase text) kws (matched @ [kw]) (score + int (max e p)) = Inr m"
      by (simp add: Let_def)
    from Cons.IH[OF this] True show ?thesis by (simp add: k)
  next
    case False
    with Cons.prems e p
    have "keywordLoop (toLowerCase text) kws matched score = Inr m"
      by (simp add: Let_def)
    from Cons.IH[OF this] False show ?thesis by (simp add: k)
  qed
qed

lemma findKeywordMatches_field:
  assumes "findKeywordMatches this text = Inr m"
  shows "kw_score m = fieldCount this (Some text)"
    and "kw_keywords m = fieldKeywords this (Some text)"
  using assms keywordLoop_result[of "text" "topicKeywords this" "[]" 0 m]
  by (auto simp: findKeywordMatches_def fieldCount_def fieldKeywords_def split: if_splits)

lemma addField_result:
  assumes "addField this field weight acc = Inr acc'"
  shows "fst acc' = fst acc + fieldCount this field * weight"
    and "snd acc' = snd acc @ fieldKeywords this field"
proof -
  show "fst acc' = fst acc + fieldCount this field * weight"
  proof (cases field)
    case None
    with assms show ?thesis by (simp add: addField_def fieldCount_def)
  next
    case (Some t)
    with assms obtain m where m: "findKeywordMatches this t = Inr m"
      and a: "acc' = (fst acc + kw_score m * weight, snd acc @ kw_keywords m)"
      by (auto simp: addField_def split: sum.splits)
    from findKeywordMatches_field(1)[OF m] a Some show ?thesis by simp
  qed
  show "snd acc' = snd acc @ fieldKeywords this field"
  proof (cases field)
    case None
    with assms show ?thesis by (simp add: addField_def fieldKeywords_def)
  next
    case (Some t)
    with assms obtain m where m: "findKeywordMatches this t = Inr m"
      and a: "acc' = (fst acc + kw_score m * weight, snd acc @ kw_keywords m)"
      by (auto simp: addField_def split: sum.splits)
    from findKeywordMatches_field(2)[OF m] a Some show ?thesis by simp
  qed
qed

lemma fieldCount_truthy:
  "fieldCount this (if truthy field then field else None) = fieldCount this field"
  by (cases field) (auto simp: fieldCount_def truthy_def)

lemma fieldKeywords_truthy:
  "fieldKeywords this (if truthy field then field else None) = fieldKeywords this field"
  by (cases field) (auto simp: fieldKeywords_def truthy_def)

lemma fieldKeywords_subset: "set (fieldKeywords this field) \<subseteq> set (topicKeywords this)"
  by (cases field) (auto simp: fieldKeywords_def)

lemma fieldCount_nonneg: "0 \<le> fieldCount this field"
  by (cases field) (auto simp: fieldCount_def intro!: sum_list_nonneg)

text \<open>What \<^verbatim>\<open>basicAnalysis\<close> returns, field by field.\<close>

lemma basicAnalysis_result:
  assumes "basicAnalysis this r = Inr a"
  shows "relevanceScore a =
           fieldCount this (description r) * 5 + fieldCount this (readmeContent r) * 1
           + fieldCount this (topicsText r) * 3"
    and "matchedKeywords a =
           uniqueOf (fieldKeywords this (description r) @ fieldKeywords this (readmeContent r)
                     @ fieldKeywords this (topicsText r))"
    and "aiSummary a = None"
    and "repo.truncate a = r"
proof -
  from assms obtain acc1 acc2 acc3 where
    a1: "addField this (if truthy (description r) then description r else None) 5 (0, []) = Inr acc1"
    and a2: "addField this (if truthy (readmeContent r) then readmeContent r else None) 1 acc1 = Inr acc2"
    and a3: "addField this (topicsText r) 3 acc2 = Inr acc3"
    and a: "a = repo.extend r \<lparr>relevanceScore = fst acc3, matchedKeywords = uniqueOf (snd acc3),
                                aiSummary = None\<rparr>"
    by (auto simp: basicAnalysis_def topicsText_def split: sum.splits)
  note r1 = addField_result[OF a1] and r2 = addField_result[OF a2] and r3 = addField_result[OF a3]
  show "relevanceScore a =
           fieldCount this (description r) * 5 + fieldCount this (readmeContent r) * 1
           + fieldCount this (topicsText r) * 3"
    using r1(1) r2(1) r3(1) by (simp add: a repo.defs fieldCount_truthy)
  show "matchedKeywords a =
           uniqueOf (fieldKeywords this (description r) @ fieldKeywords this (readmeContent r)
                     @ fieldKeywords this (topicsText r))"
    using r1(2) r2(2) r3(2) by (simp add: a repo.defs fieldKeywords_truthy)
  show "aiSummary a = None" by (simp add: a repo.defs)
  show "repo.truncate a = r" by (simp add: a repo.defs)
qed


section \<open>Language filter\<close>

text \<open>
  Claim C6, as the code has it.  With no target language the filter returns its input
  unchanged.  With target languages it returns the repositories, in their order, whose
  language tag is one of the targets when both are put to lower case; a missing tag is
  compared as the empty string, so it matches no target unless the empty string is a
  target: when the empty string is not a target, every repository returned has a
  non-empty tag.
\<close>

theorem C6_language_filter:
  "(langs = [] \<longrightarrow> filter_repos (new_LanguageFilter langs) repos = repos)
   \<and> (langs \<noteq> [] \<longrightarrow>
        filter_repos (new_LanguageFilter langs) repos
          = filter (\<lambda>r. toLowerCase (languageTag r) \<in> toLowerCase ` set langs) repos)
   \<and> (langs \<noteq> [] \<and> [] \<notin> set langs \<longrightarrow>
        (\<forall>r \<in> set (filter_repos (new_LanguageFilter langs) repos).
           language r \<noteq> None \<and> language r \<noteq> Some []))"
proof -
  have tag: "\<And>r. (if truthy (language r) then the (language r) else []) = languageTag r"
    by (auto simp: truthy_def languageTag_def split: option.splits)
  have low: "\<And>s. toLowerCase [] = toLowerCase s \<longleftrightarrow> s = []"
    by (auto simp: toLowerCase_def)
  show ?thesis
    by (auto simp: filter_repos_def new_LanguageFilter_def Let_def tag low languageTag_def
             split: option.splits)
qed

text \<open>
  The targets \<open>python\<close> keep the repositories tagged \<open>Python\<close> and \<open>python\<close> and drop
  the one tagged \<open>Rust\<close> and the one without a tag; no targets keep everything.
\<close>

theorem C6_language_filter_witness:
  "[''python''] \<noteq> [] \<and> [] \<notin> set [''python'']
   \<and> filter_repos (new_LanguageFilter [''python''])
        [plainRepo ''a/one'' (Some ''Python'') None, plainRepo ''b/two'' (Some ''Rust'') None,
         plainRepo ''c/three'' (Some ''python'') None, plainRepo ''d/four'' None None]
      = [plainRepo ''a/one'' (Some ''Python'') None, plainRepo ''c/three'' (Some ''python'') None]
   \<and> filter_repos (new_LanguageFilter []) [plainRepo ''b/two'' (Some ''Rust'') None]
      = [plainRepo ''b/two'' (Some ''Rust'') None]"
  using C6_language_filter[of "[''python'']"
          "[plainRepo ''a/one'' (Some ''Python'') None, plainRepo ''b/two'' (Some ''Rust'') None,
            plainRepo ''c/three'' (Some ''python'') None, plainRepo ''d/four'' None None]"]
        C6_language_filter[of "[]" "[plainRepo ''b/two'' (Some ''Rust'') None]"]
  by code_simp

text \<open>
  With the empty string as the only target, the target set is not empty and a repository
  without a language tag passes the filter.
\<close>

theorem C6_missing_tag_counterexample:
  "[''''] \<noteq> [] \<and> language (plainRepo ''d/four'' None None) = None
   \<and> filter_repos (new_LanguageFilter ['''']) [plainRepo ''d/four'' None None]
       = [plainRepo ''d/four'' None None]"
  by code_simp

section \<open>Scoring\<close>


text \<open>
  Claim C3.  For a non-empty text, the score that \<^verbatim>\<open>findKeywordMatches\<close> returns is the
  sum, over the configured keywords, of the larger of the keyword's whole-word match count
  and its substring match count in that text (never the sum of the two), and the keywords
  it returns are those for which that maximum is positive, in configuration order.  An
  empty text is not searched: it has the score 0 and no keywords.
\<close>

theorem C3_match_count_is_max:
  assumes "findKeywordMatches this text = Inr m"
  shows "(text \<noteq> [] \<longrightarrow>
            kw_score m
              = (\<Sum>kw\<leftarrow>topicKeywords this.
                   int (max (wholeWordCount text kw) (substringCount text kw)))
            \<and> kw_keywords m
              = filter (\<lambda>kw. 0 < max (wholeWordCount text kw) (substringCount text kw))
                  (topicKeywords this))
         \<and> (text = [] \<longrightarrow> kw_score m = 0 \<and> kw_keywords m = [])"
  using findKeywordMatches_field[OF assms]
  by (simp add: fieldCount_def fieldKeywords_def keywordCount_def)

text \<open>
  The keyword \<open>AI\<close> occurs once as a whole word and twice as a substring in \<open>AI mail\<close>:
  the scorer counts 2, not 3.  The empty text scores 0.
\<close>

theorem C3_match_count_is_max_witness:
  "findKeywordMatches (new_SmartAnalyzer bothTokens (keywordConfig [''AI''])) ''AI mail''
     = Inr \<lparr>kw_score = 2, kw_keywords = [''AI'']\<rparr>
   \<and> ''AI mail'' \<noteq> []
   \<and> wholeWordCount ''AI mail'' ''AI'' = 1 \<and> substringCount ''AI mail'' ''AI'' = 2
   \<and> (2::int) = (\<Sum>kw\<leftarrow>topicKeywords (new_SmartAnalyzer bothTokens (keywordConfig [''AI''])).
                    int (max (wholeWordCount ''AI mail'' kw) (substringCount ''AI mail'' kw)))
   \<and> findKeywordMatches (new_SmartAnalyzer bothTokens (keywordConfig [''AI''])) []
     = Inr \<lparr>kw_score = 0, kw_keywords = []\<rparr>"
proof -
  let ?A = "new_SmartAnalyzer bothTokens (keywordConfig [''AI''])"
  have h: "findKeywordMatches ?A ''AI mail'' = Inr \<lparr>kw_score = 2, kw_keywords = [''AI'']\<rparr>"
    by code_simp
  have t: "''AI mail'' \<noteq> []" by simp
  have w: "wholeWordCount ''AI mail'' ''AI'' = 1" by code_simp
  have s: "substringCount ''AI mail'' ''AI'' = 2" by code_simp
  have e: "findKeywordMatches ?A [] = Inr (projr (findKeywordMatches ?A []))" by code_simp
  from C3_match_count_is_max[OF e] have
    "kw_score (projr (findKeywordMatches ?A [])) = 0
     \<and> kw_keywords (projr (findKeywordMatches ?A [])) = []"
    by blast
  then have "projr (findKeywordMatches ?A []) = \<lparr>kw_score = 0, kw_keywords = []\<rparr>" by simp
  with e have z: "findKeywordMatches ?A [] = Inr \<lparr>kw_score = 0, kw_keywords = []\<rparr>" by simp
  from C3_match_count_is_max[OF h] t have
    "kw_score \<lparr>kw_score = 2, kw_keywords = [''AI'']\<rparr>
       = (\<Sum>kw\<leftarrow>topicKeywords ?A. int (max (wholeWordCount ''AI mail'' kw) (substringCount ''AI mail'' kw)))"
    by blast
  then have "(2::int)
       = (\<Sum>kw\<leftarrow>topicKeywords ?A. int (max (wholeWordCount ''AI mail'' kw) (substringCount ''AI mail'' kw)))"
    by simp
  with h t w s z show ?thesis by blast
qed

text \<open>
  Claim C4.  The relevance score that \<^verbatim>\<open>basicAnalysis\<close> returns is 5 times the match
  count of the description plus 1 times that of the README text plus 3 times that of the
  joined topic tags, each summed over all keywords.  For the keywords \<open>[AI]\<close> and a
  repository with the description \<open>An AI agent framework\<close>, no README text and no
  topics, the score is 5 and the matched keywords are \<open>[AI]\<close>.
\<close>

theorem C4_weighted_score:
  "(basicAnalysis this r = Inr a \<longrightarrow>
      relevanceScore a
        = 5 * fieldCount this (description r) + 1 * fieldCount this (readmeContent r)
          + 3 * fieldCount this (topicsText r))
   \<and> basicAnalysis (this\<lparr>topicKeywords := [''AI'']\<rparr>)
        (r\<lparr>description := Some ''An AI agent framework'', readmeContent := None, topics := None\<rparr>)
      = Inr (repo.extend
               (r\<lparr>description := Some ''An AI agent framework'', readmeContent := None,
                   topics := None\<rparr>)
               \<lparr>relevanceScore = 5, matchedKeywords = [''AI''], aiSummary = None\<rparr>)"
proof -
  have e: "matchCount (wordBoundaryEscape @ toLowerCase ''AI'' @ wordBoundaryEscape)
             (toLowerCase ''An AI agent framework'') = Inr 1"
    by code_simp
  have p: "matchCount (toLowerCase ''AI'') (toLowerCase ''An AI agent framework'') = Inr 1"
    by code_simp
  have f: "findKeywordMatches (this\<lparr>topicKeywords := [''AI'']\<rparr>) ''An AI agent framework''
             = Inr \<lparr>kw_score = 1, kw_keywords = [''AI'']\<rparr>"
    by (simp add: findKeywordMatches_def e p)
  have "basicAnalysis (this\<lparr>topicKeywords := [''AI'']\<rparr>)
        (r\<lparr>description := Some ''An AI agent framework'', readmeContent := None, topics := None\<rparr>)
      = Inr (repo.extend
               (r\<lparr>description := Some ''An AI agent framework'', readmeContent := None,
                   topics := None\<rparr>)
               \<lparr>relevanceScore = 5, matchedKeywords = [''AI''], aiSummary = None\<rparr>)"
    by (simp add: basicAnalysis_def addField_def truthy_def f uniqueOf_def)
  moreover have "basicAnalysis this r = Inr a \<longrightarrow>
      relevanceScore a
        = 5 * fieldCount this (description r) + 1 * fieldCount this (readmeContent r)
          + 3 * fieldCount this (topicsText r)"
    using basicAnalysis_result(1)[of this r a] by auto
  ultimately show ?thesis by blast
qed


text \<open>
  A repository with matches in all three fields: 5 * 2 + 1 * 2 + 3 * 1 = 15.
\<close>

theorem C4_weighted_score_witness:
  "basicAnalysis (new_SmartAnalyzer bothTokens (keywordConfig [''AI'', ''agent'']))
     ((plainRepo ''a/one'' None (Some ''AI agents''))
        \<lparr>readmeContent := Some ''AI mail'', topics := Some [''ai'', ''llm'']\<rparr>)
     = Inr (repo.extend
              ((plainRepo ''a/one'' None (Some ''AI agents''))
                 \<lparr>readmeContent := Some ''AI mail'', topics := Some [''ai'', ''llm'']\<rparr>)
              \<lparr>relevanceScore = 15, matchedKeywords = [''AI'', ''agent''], aiSummary = None\<rparr>)
   \<and> 5 * fieldCount (new_SmartAnalyzer bothTokens (keywordConfig [''AI'', ''agent'']))
            (Some ''AI agents'')
     + 1 * fieldCount (new_SmartAnalyzer bothTokens (keywordConfig [''AI'', ''agent'']))
            (Some ''AI mail'')
     + 3 * fieldCount (new_SmartAnalyzer bothTokens (keywordConfig [''AI'', ''agent'']))
            (Some ''ai llm'')
     = 15"
proof -
  let ?A = "new_SmartAnalyzer bothTokens (keywordConfig [''AI'', ''agent''])"
  let ?R = "(plainRepo ''a/one'' None (Some ''AI agents''))
              \<lparr>readmeContent := Some ''AI mail'', topics := Some [''ai'', ''llm'']\<rparr>"
  let ?X = "repo.extend ?R
              \<lparr>relevanceScore = 15, matchedKeywords = [''AI'', ''agent''], aiSummary = None\<rparr>"
  have h: "basicAnalysis ?A ?R = Inr ?X" by code_simp
  have d: "description ?R = Some ''AI agents''" by (simp add: plainRepo_def)
  have m: "readmeContent ?R = Some ''AI mail''" by simp
  have t: "topicsText ?R = Some ''ai llm''" by (simp add: topicsText_def)
  have s: "relevanceScore ?X = 15" by (simp add: repo.defs)
  from C4_weighted_score[of ?A ?R ?X] h have
    "relevanceScore ?X = 5 * fieldCount ?A (description ?R) + 1 * fieldCount ?A (readmeContent ?R)
                         + 3 * fieldCount ?A (topicsText ?R)"
    by blast
  then have "5 * fieldCount ?A (Some ''AI agents'') + 1 * fieldCount ?A (Some ''AI mail'')
             + 3 * fieldCount ?A (Some ''ai llm'') = 15"
    unfolding d m t s by simp
  with h show ?thesis by blast
qed

text \<open>
  Claim C2.  The matched keywords that \<^verbatim>\<open>basicAnalysis\<close> returns have no duplicates, are
  configured keywords, and are at most as many as the configured keywords.  Their order:
  the keywords found in the description, in configuration order; then those found in the
  README text and not before, in configuration order; then those found in the topics and
  not before.  So the first field where a keyword matched determines its position, and a
  keyword found in several fields stays at its first occurrence.
\<close>

theorem C2_matched_keywords:
  assumes "basicAnalysis this r = Inr a"
  shows "distinct (matchedKeywords a)
         \<and> length (matchedKeywords a) \<le> length (topicKeywords this)
         \<and> set (matchedKeywords a) \<subseteq> set (topicKeywords this)
         \<and> matchedKeywords a
             = uniqueOf (fieldKeywords this (description r))
               @ filter (\<lambda>k. k \<notin> set (fieldKeywords this (description r)))
                   (uniqueOf (fieldKeywords this (readmeContent r)))
               @ filter (\<lambda>k. k \<notin> set (fieldKeywords this (description r))
                              \<and> k \<notin> set (fieldKeywords this (readmeContent r)))
                   (uniqueOf (fieldKeywords this (topicsText r)))"
proof -
  let ?D = "fieldKeywords this (description r)"
  let ?R = "fieldKeywords this (readmeContent r)"
  let ?T = "fieldKeywords this (topicsText r)"
  have m: "matchedKeywords a = uniqueOf (?D @ ?R @ ?T)"
    by (rule basicAnalysis_result(2)[OF assms])
  have sub: "set (?D @ ?R @ ?T) \<subseteq> set (topicKeywords this)"
    using fieldKeywords_subset[of this "description r"]
          fieldKeywords_subset[of this "readmeContent r"]
          fieldKeywords_subset[of this "topicsText r"]
    by auto
  have 1: "distinct (matchedKeywords a)" unfolding m by (rule uniqueOf_distinct)
  have 2: "length (matchedKeywords a) \<le> length (topicKeywords this)"
    unfolding m by (rule uniqueOf_length[OF sub])
  have 3: "set (matchedKeywords a) \<subseteq> set (topicKeywords this)"
    unfolding m uniqueOf_set by (rule sub)
  have f: "filter (\<lambda>y. y \<notin> set ?D) (filter (\<lambda>y. y \<notin> set ?R) (uniqueOf ?T))
           = filter (\<lambda>k. k \<notin> set ?D \<and> k \<notin> set ?R) (uniqueOf ?T)"
    by (simp add: conj_commute)
  have 4: "matchedKeywords a
             = uniqueOf ?D @ filter (\<lambda>k. k \<notin> set ?D) (uniqueOf ?R)
               @ filter (\<lambda>k. k \<notin> set ?D \<and> k \<notin> set ?R) (uniqueOf ?T)"
    unfolding m uniqueOf_append[of ?D "?R @ ?T"] uniqueOf_append[of ?R ?T] filter_append f
    by simp
  from 1 2 3 4 show ?thesis by blast
qed

text \<open>
  With the keywords \<open>[agent, AI]\<close>, the description matches \<open>AI\<close> only and the README
  text matches both: the matched keywords are \<open>[AI, agent]\<close>.
\<close>

theorem C2_matched_keywords_witness:
  "basicAnalysis (new_SmartAnalyzer bothTokens (keywordConfig [''agent'', ''AI'']))
     ((plainRepo ''a/one'' None (Some ''AI toolkit''))
        \<lparr>readmeContent := Some ''An agent for AI'', topics := Some [''ai'', ''agent'']\<rparr>)
     = Inr (repo.extend
              ((plainRepo ''a/one'' None (Some ''AI toolkit''))
                 \<lparr>readmeContent := Some ''An agent for AI'', topics := Some [''ai'', ''agent'']\<rparr>)
              \<lparr>relevanceScore = 13, matchedKeywords = [''AI'', ''agent''], aiSummary = None\<rparr>)
   \<and> distinct [''AI'', ''agent'']
   \<and> length [''AI'', ''agent''] \<le> length [''agent'', ''AI'']
   \<and> fieldKeywords (new_SmartAnalyzer bothTokens (keywordConfig [''agent'', ''AI'']))
        (Some ''AI toolkit'') = [''AI'']
   \<and> fieldKeywords (new_SmartAnalyzer bothTokens (keywordConfig [''agent'', ''AI'']))
        (Some ''An agent for AI'') = [''agent'', ''AI'']"
proof -
  let ?A = "new_SmartAnalyzer bothTokens (keywordConfig [''agent'', ''AI''])"
  let ?R = "(plainRepo ''a/one'' None (Some ''AI toolkit''))
              \<lparr>readmeContent := Some ''An agent for AI'', topics := Some [''ai'', ''agent'']\<rparr>"
  let ?X = "repo.extend ?R
              \<lparr>relevanceScore = 13, matchedKeywords = [''AI'', ''agent''], aiSummary = None\<rparr>"
  have h: "basicAnalysis ?A ?R = Inr ?X" by code_simp
  have k: "matchedKeywords ?X = [''AI'', ''agent'']" by (simp add: repo.defs)
  have a: "topicKeywords ?A = [''agent'', ''AI'']"
    by (simp add: new_SmartAnalyzer_def keywordConfig_def Let_def)
  have d: "fieldKeywords ?A (Some ''AI toolkit'') = [''AI'']" by code_simp
  have m: "fieldKeywords ?A (Some ''An agent for AI'') = [''agent'', ''AI'']" by code_simp
  from C2_matched_keywords[OF h] have
    "distinct (matchedKeywords ?X) \<and> length (matchedKeywords ?X) \<le> length (topicKeywords ?A)"
    by blast
  then have "distinct [''AI'', ''agent''] \<and> length [''AI'', ''agent''] \<le> length [''agent'', ''AI'']"
    unfolding k a .
  with h d m show ?thesis by blast
qed

text \<open>
  Of the analyzer, the search reads the keyword list only.
\<close>

lemma findKeywordMatches_keywords_only:
  "topicKeywords an1 = topicKeywords an2 \<Longrightarrow> findKeywordMatches an1 t = findKeywordMatches an2 t"
  by (simp add: findKeywordMatches_def)

lemma addField_keywords_only:
  "topicKeywords an1 = topicKeywords an2 \<Longrightarrow> addField an1 f w acc = addField an2 f w acc"
  using findKeywordMatches_keywords_only[of an1 an2]
  by (cases f) (simp_all add: addField_def)

text \<open>
  Claim C9.  The relevance score and the matched keywords are a function of the three
  text fields and the keyword list alone: two repositories with the same description,
  README text and topic text, analysed by two analyzers with the same keywords, get the
  same score and the same matched keywords (or the same exception), whatever their other
  fields, the summary quota, the feature flag and the API key.  The summary counter does
  not enter either: the record \<^verbatim>\<open>analyzeSingleRepo\<close> returns carries the score and the
  keywords of \<^verbatim>\<open>basicAnalysis\<close>.  The score is never negative.
\<close>

theorem C9_scoring_deterministic:
  "(description r1 = description r2 \<and> readmeContent r1 = readmeContent r2
      \<and> topicsText r1 = topicsText r2 \<and> topicKeywords an1 = topicKeywords an2 \<longrightarrow>
        map_sum id (\<lambda>a. (relevanceScore a, matchedKeywords a)) (basicAnalysis an1 r1)
        = map_sum id (\<lambda>a. (relevanceScore a, matchedKeywords a)) (basicAnalysis an2 r2))
   \<and> (basicAnalysis an1 r1 = Inr a \<longrightarrow> 0 \<le> relevanceScore a)
   \<and> (analyzeSingleRepo an1 r1 n = Inr b \<longrightarrow>
        map_sum id (\<lambda>a. (relevanceScore a, matchedKeywords a)) (basicAnalysis an1 r1)
        = Inr (relevanceScore b, matchedKeywords b) \<and> 0 \<le> relevanceScore b)"
proof -
  have 1: "map_sum id (\<lambda>a. (relevanceScore a, matchedKeywords a)) (basicAnalysis an1 r1)
           = map_sum id (\<lambda>a. (relevanceScore a, matchedKeywords a)) (basicAnalysis an2 r2)"
    if "description r1 = description r2" "readmeContent r1 = readmeContent r2"
       "topicsText r1 = topicsText r2" "topicKeywords an1 = topicKeywords an2"
    using that
    by (simp add: basicAnalysis_def topicsText_def addField_keywords_only[of an1 an2] repo.defs
             split: sum.splits)
  have 2: "0 \<le> relevanceScore x" if "basicAnalysis an1 r1 = Inr x" for x
    using basicAnalysis_result(1)[OF that]
          fieldCount_nonneg[of an1 "description r1"] fieldCount_nonneg[of an1 "readmeContent r1"]
          fieldCount_nonneg[of an1 "topicsText r1"]
    by simp
  have 3: "map_sum id (\<lambda>a. (relevanceScore a, matchedKeywords a)) (basicAnalysis an1 r1)
             = Inr (relevanceScore b, matchedKeywords b) \<and> 0 \<le> relevanceScore b"
    if "analyzeSingleRepo an1 r1 n = Inr b"
  proof -
    from that obtain x where x: "basicAnalysis an1 r1 = Inr x"
      and b: "relevanceScore b = relevanceScore x" "matchedKeywords b = matchedKeywords x"
      by (auto simp: analyzeSingleRepo_def split: sum.splits if_splits)
    from 2[OF x] x b show ?thesis by simp
  qed
  from 1 2 3 show ?thesis by blast
qed


text \<open>
  Two repositories that differ in name and language, and two analyzers that differ in API
  key and quota: the same score 5 and the same keywords.
\<close>

theorem C9_scoring_deterministic_witness:
  "description (plainRepo ''a/one'' (Some ''Python'') (Some ''An AI agent framework''))
     = description (plainRepo ''b/two'' None (Some ''An AI agent framework''))
   \<and> topicKeywords (new_SmartAnalyzer bothTokens (keywordConfig [''AI'']))
     = topicKeywords (new_SmartAnalyzer (\<lambda>k. None)
                        ((keywordConfig [''AI''])\<lparr>max_ai_summaries := Some 1\<rparr>))
   \<and> map_sum id (\<lambda>a. (relevanceScore a, matchedKeywords a))
        (basicAnalysis (new_SmartAnalyzer bothTokens (keywordConfig [''AI'']))
           (plainRepo ''a/one'' (Some ''Python'') (Some ''An AI agent framework'')))
     = Inr (5, [''AI''])
   \<and> map_sum id (\<lambda>a. (relevanceScore a, matchedKeywords a))
        (basicAnalysis (new_SmartAnalyzer (\<lambda>k. None)
                          ((keywordConfig [''AI''])\<lparr>max_ai_summaries := Some 1\<rparr>))
           (plainRepo ''b/two'' None (Some ''An AI agent framework'')))
     = Inr (5, [''AI''])"
proof -
  let ?A1 = "new_SmartAnalyzer bothTokens (keywordConfig [''AI''])"
  let ?A2 = "new_SmartAnalyzer (\<lambda>k. None) ((keywordConfig [''AI''])\<lparr>max_ai_summaries := Some 1\<rparr>)"
  let ?R1 = "plainRepo ''a/one'' (Some ''Python'') (Some ''An AI agent framework'')"
  let ?R2 = "plainRepo ''b/two'' None (Some ''An AI agent framework'')"
  have d: "description ?R1 = description ?R2" by (simp add: plainRepo_def)
  have m: "readmeContent ?R1 = readmeContent ?R2" by (simp add: plainRepo_def)
  have t: "topicsText ?R1 = topicsText ?R2" by (simp add: plainRepo_def topicsText_def)
  have k: "topicKeywords ?A1 = topicKeywords ?A2"
    by (simp add: new_SmartAnalyzer_def keywordConfig_def Let_def)
  have v: "map_sum id (\<lambda>a. (relevanceScore a, matchedKeywords a)) (basicAnalysis ?A1 ?R1)
             = Inr (5, [''AI''])"
    by code_simp
  from C9_scoring_deterministic[of ?R1 ?R2 ?A1 ?A2] d m t k have
    "map_sum id (\<lambda>a. (relevanceScore a, matchedKeywords a)) (basicAnalysis ?A1 ?R1)
     = map_sum id (\<lambda>a. (relevanceScore a, matchedKeywords a)) (basicAnalysis ?A2 ?R2)"
    by blast
  with v have "map_sum id (\<lambda>a. (relevanceScore a, matchedKeywords a)) (basicAnalysis ?A2 ?R2)
                 = Inr (5, [''AI''])"
    by simp
  with d k v show ?thesis by blast
qed

section \<open>Keywords with syntax characters\<close>


lemma quantifierOf_None: "\<not> isSyntaxCharacter c \<Longrightarrow> quantifierOf c = None"
  by (auto simp: isSyntaxCharacter_def quantifierOf_def)

text \<open>
  A pattern without syntax characters, followed by a pattern that parses and does not
  start with a quantifier, parses.
\<close>

lemma parsePattern_literal:
  assumes "\<forall>c \<in> set s. \<not> isSyntaxCharacter c"
    and "parsePattern t = Inr ts"
    and "t = [] \<or> quantifierOf (hd t) = None"
  shows "\<exists>ts'. parsePattern (s @ t) = Inr ts'"
  using assms(1)
proof (induction s)
  case Nil
  with assms(2) show ?case by simp
next
  case (Cons c cs)
  then obtain ts' where ih: "parsePattern (cs @ t) = Inr ts'" by auto
  from Cons.prems have c: "\<not> isSyntaxCharacter c" by simp
  have q: "quantifierOf (hd (cs @ t)) = None" if "cs @ t \<noteq> []"
  proof (cases cs)
    case Nil
    with that assms(3) show ?thesis by auto
  next
    case (Cons d ds)
    with Cons.prems show ?thesis by (simp add: quantifierOf_None)
  qed
  show ?case
  proof (cases "cs @ t")
    case Nil
    with c show ?thesis
      by (auto simp: isSyntaxCharacter_def quantifierOf_def Let_def)
  next
    case (Cons q qs)
    with q have "quantifierOf q = None" by simp
    with c Cons ih show ?thesis
      by (auto simp: isSyntaxCharacter_def quantifierOf_def Let_def consTerm_def)
  qed
qed

lemma isSyntaxCharacter_code:
  "isSyntaxCharacter c \<longleftrightarrow>
     (of_char c :: nat) \<in> {92, 94, 36, 46, 42, 43, 63, 40, 41, 91, 93, 123, 125, 124}"
proof -
  have e: "\<And>d. c = d \<longleftrightarrow> (of_char c :: nat) = of_char d" by simp
  show ?thesis unfolding isSyntaxCharacter_def by (simp add: e)
qed

lemma of_char_charToLower:
  "(of_char (charToLower c) :: nat)
     = (if 65 \<le> (of_char c :: nat) \<and> (of_char c :: nat) \<le> 90 then of_char c + 32 else of_char c)"
  by (simp add: charToLower_def Let_def)

lemma charToLower_syntax: "\<not> isSyntaxCharacter c \<Longrightarrow> \<not> isSyntaxCharacter (charToLower c)"
  unfolding isSyntaxCharacter_code of_char_charToLower by (auto split: if_splits)

lemma literal_patterns_compile:
  assumes "\<forall>c \<in> set kw. \<not> isSyntaxCharacter c"
  shows "\<exists>n. matchCount (wordBoundaryEscape @ toLowerCase kw @ wordBoundaryEscape) t = Inr n"
    and "\<exists>n. matchCount (toLowerCase kw) t = Inr n"
proof -
  from assms have l: "\<forall>c \<in> set (toLowerCase kw). \<not> isSyntaxCharacter c"
    by (auto simp: toLowerCase_def charToLower_syntax)
  have w: "parsePattern wordBoundaryEscape = Inr [WordBoundary]"
    by (simp add: wordBoundaryEscape_def consTerm_def)
  have "\<exists>ts. parsePattern (toLowerCase kw @ wordBoundaryEscape) = Inr ts"
    by (rule parsePattern_literal[OF l w]) (simp add: wordBoundaryEscape_def quantifierOf_def)
  then obtain ts where "parsePattern (toLowerCase kw @ wordBoundaryEscape) = Inr ts" ..
  then have "parsePattern (wordBoundaryEscape @ toLowerCase kw @ wordBoundaryEscape)
               = Inr (WordBoundary # ts)"
    by (simp add: wordBoundaryEscape_def consTerm_def)
  then show "\<exists>n. matchCount (wordBoundaryEscape @ toLowerCase kw @ wordBoundaryEscape) t = Inr n"
    by (simp add: matchCount_def)
  have "\<exists>ts. parsePattern (toLowerCase kw @ []) = Inr ts"
    by (rule parsePattern_literal[OF l]) simp_all
  then show "\<exists>n. matchCount (toLowerCase kw) t = Inr n"
    by (auto simp: matchCount_def)
qed

lemma keywordLoop_total:
  "\<forall>kw \<in> set kws. \<forall>c \<in> set kw. \<not> isSyntaxCharacter c \<Longrightarrow>
     \<exists>m. keywordLoop t kws matched score = Inr m"
proof (induction kws arbitrary: matched score)
  case Nil
  show ?case by simp
next
  case (Cons kw kws)
  then have kw: "\<forall>c \<in> set kw. \<not> isSyntaxCharacter c" by simp
  from literal_patterns_compile[OF kw, of t] obtain e p where
    "matchCount (wordBoundaryEscape @ toLowerCase kw @ wordBoundaryEscape) t = Inr e"
    "matchCount (toLowerCase kw) t = Inr p"
    by blast
  moreover from Cons have "\<And>matched score. \<exists>m. keywordLoop t kws matched score = Inr m"
    by simp
  ultimately show ?case by (simp add: Let_def)
qed

text \<open>
  The whole-word pattern of the keyword \<open>c++\<close> has a quantifier with nothing to repeat.
\<close>

lemma cpp_pattern:
  "matchCount (wordBoundaryEscape @ CHR ''c'' # CHR ''+'' # CHR ''+'' # wordBoundaryEscape) t
     = Inl SyntaxError"
  by (simp add: matchCount_def wordBoundaryEscape_def consTerm_def quantifierOf_def)

lemma keywordLoop_cpp:
  "\<exists>kw \<in> set kws. toLowerCase kw = ''c++'' \<Longrightarrow> \<exists>e. keywordLoop t kws matched score = Inl e"
proof (induction kws arbitrary: matched score)
  case Nil
  then show ?case by simp
next
  case (Cons kw kws)
  show ?case
  proof (cases "toLowerCase kw = ''c++''")
    case True
    then show ?thesis by (simp add: cpp_pattern)
  next
    case False
    with Cons.prems have "\<exists>k \<in> set kws. toLowerCase k = ''c++''" by auto
    from Cons.IH[OF this] have "\<And>matched score. \<exists>e. keywordLoop t kws matched score = Inl e" .
    then show ?thesis by (auto simp: Let_def split: sum.splits)
  qed
qed

lemma findKeywordMatches_total:
  "\<forall>kw \<in> set (topicKeywords this). \<forall>c \<in> set kw. \<not> isSyntaxCharacter c \<Longrightarrow>
     \<exists>m. findKeywordMatches this t = Inr m"
  using keywordLoop_total[of "topicKeywords this" "toLowerCase t" "[]" 0]
  by (simp add: findKeywordMatches_def)

lemma addField_total:
  "\<forall>kw \<in> set (topicKeywords this). \<forall>c \<in> set kw. \<not> isSyntaxCharacter c \<Longrightarrow>
     \<exists>acc'. addField this field weight acc = Inr acc'"
proof (cases field)
  case None
  then show ?thesis by (simp add: addField_def)
next
  case (Some t)
  assume "\<forall>kw \<in> set (topicKeywords this). \<forall>c \<in> set kw. \<not> isSyntaxCharacter c"
  from findKeywordMatches_total[OF this, of t] obtain m where "findKeywordMatches this t = Inr m" ..
  with Some show ?thesis by (simp add: addField_def)
qed

lemma basicAnalysis_total:
  assumes "\<forall>kw \<in> set (topicKeywords this). \<forall>c \<in> set kw. \<not> isSyntaxCharacter c"
  shows "\<exists>a. basicAnalysis this r = Inr a"
proof -
  from addField_total[OF assms] obtain acc1 where
    1: "addField this (if truthy (description r) then description r else None) 5 (0, []) = Inr acc1"
    by blast
  from addField_total[OF assms] obtain acc2 where
    2: "addField this (if truthy (readmeContent r) then readmeContent r else None) 1 acc1 = Inr acc2"
    by blast
  from addField_total[OF assms] obtain acc3 where
    3: "addField this (map_option (join '' '') (topics r)) 3 acc2 = Inr acc3"
    by blast
  show ?thesis by (simp add: basicAnalysis_def 1 2 3)
qed

lemma findKeywordMatches_cpp:
  assumes "\<exists>kw \<in> set (topicKeywords this). toLowerCase kw = ''c++''" and "t \<noteq> []"
  shows "\<exists>e. findKeywordMatches this t = Inl e"
proof -
  from assms(1) have "topicKeywords this \<noteq> []" by auto
  with assms(2) keywordLoop_cpp[OF assms(1), of "toLowerCase t" "[]" 0]
  show ?thesis by (simp add: findKeywordMatches_def)
qed

lemma basicAnalysis_cpp:
  assumes "\<exists>kw \<in> set (topicKeywords this). toLowerCase kw = ''c++''" and "truthy (description r)"
  shows "\<exists>e. basicAnalysis this r = Inl e"
proof -
  from assms(2) obtain d where d: "description r = Some d" "d \<noteq> []"
    by (auto simp: truthy_def split: option.splits)
  from findKeywordMatches_cpp[OF assms(1) d(2)] obtain e where "findKeywordMatches this d = Inl e" ..
  with d assms(2) show ?thesis by (simp add: basicAnalysis_def addField_def)
qed

text \<open>
  Claim C10.  The keyword goes into the pattern as it is.  When no configured keyword has
  a syntax character of the pattern language, the search of any text and the analysis of
  any repository return.  With the keyword \<open>c++\<close> alone, the search of every non-empty
  text throws \<open>SyntaxError\<close>; with a keyword list that has \<open>c++\<close> (in any letter case)
  among its keywords, the search of every non-empty text throws, and so do the analysis of
  every repository with a non-empty description and \<^verbatim>\<open>analyzeBatch\<close> on a batch that starts
  with one, whose handler runs the analysis a second time outside any \<^verbatim>\<open>try\<close>.
\<close>

theorem C10_unescaped_keyword:
  "((\<forall>kw \<in> set (topicKeywords this). \<forall>c \<in> set kw. \<not> isSyntaxCharacter c) \<longrightarrow>
      (\<exists>m. findKeywordMatches this t = Inr m) \<and> (\<exists>a. basicAnalysis this r = Inr a))
   \<and> (t \<noteq> [] \<longrightarrow> findKeywordMatches (this\<lparr>topicKeywords := [''c++'']\<rparr>) t = Inl SyntaxError)
   \<and> ((\<exists>kw \<in> set (topicKeywords this). toLowerCase kw = ''c++'') \<and> t \<noteq> [] \<longrightarrow>
        (\<exists>e. findKeywordMatches this t = Inl e))
   \<and> ((\<exists>kw \<in> set (topicKeywords this). toLowerCase kw = ''c++'') \<and> truthy (description r) \<longrightarrow>
        (\<exists>e. basicAnalysis this r = Inl e) \<and> (\<exists>e. analyzeBatch this (r # rs) = Inl e))"
proof -
  have 2: "findKeywordMatches (this\<lparr>topicKeywords := [''c++'']\<rparr>) t = Inl SyntaxError" if "t \<noteq> []"
  proof -
    have "toLowerCase ''c++'' = ''c++''" by code_simp
    with that show ?thesis by (simp add: findKeywordMatches_def cpp_pattern Let_def)
  qed
  have 4: "\<exists>e. analyzeBatch this (r # rs) = Inl e"
    if "\<exists>kw \<in> set (topicKeywords this). toLowerCase kw = ''c++''" "truthy (description r)"
  proof -
    from basicAnalysis_cpp[OF that] obtain e where "basicAnalysis this r = Inl e" ..
    then show ?thesis by (simp add: analyzeBatch_def analyzeSingleRepo_def)
  qed
  from findKeywordMatches_total[of this t] basicAnalysis_total[of this r] 2
       findKeywordMatches_cpp[of this t] basicAnalysis_cpp[of this r] 4
  show ?thesis by blast
qed


text \<open>
  The keywords \<open>[AI]\<close> have no syntax character and the search returns; with \<open>C++\<close>
  among the keywords the search of \<open>C++ library\<close> and the batch throw.
\<close>

theorem C10_unescaped_keyword_witness:
  "(\<exists>m. findKeywordMatches (new_SmartAnalyzer bothTokens (keywordConfig [''AI''])) ''C++ library''
          = Inr m)
   \<and> ''C++ library'' \<noteq> []
   \<and> findKeywordMatches
        ((new_SmartAnalyzer bothTokens (keywordConfig [''AI'']))\<lparr>topicKeywords := [''c++'']\<rparr>)
        ''C++ library'' = Inl SyntaxError
   \<and> toLowerCase ''C++'' = ''c++''
   \<and> truthy (description (plainRepo ''a/one'' None (Some ''C++ library'')))
   \<and> (\<exists>e. findKeywordMatches (new_SmartAnalyzer bothTokens (keywordConfig [''AI'', ''C++'']))
             ''C++ library'' = Inl e)
   \<and> (\<exists>e. analyzeBatch (new_SmartAnalyzer bothTokens (keywordConfig [''AI'', ''C++'']))
             [plainRepo ''a/one'' None (Some ''C++ library'')] = Inl e)"
proof -
  let ?A = "new_SmartAnalyzer bothTokens (keywordConfig [''AI''])"
  let ?B = "new_SmartAnalyzer bothTokens (keywordConfig [''AI'', ''C++''])"
  let ?R = "plainRepo ''a/one'' None (Some ''C++ library'')"
  have a: "\<forall>kw \<in> set (topicKeywords ?A). \<forall>c \<in> set kw. \<not> isSyntaxCharacter c" by code_simp
  have t: "''C++ library'' \<noteq> []" by simp
  have l: "toLowerCase ''C++'' = ''c++''" by code_simp
  have b: "\<exists>kw \<in> set (topicKeywords ?B). toLowerCase kw = ''c++''" by code_simp
  have d: "truthy (description ?R)" by code_simp
  from C10_unescaped_keyword[of ?A "''C++ library''" ?R "[]"] a t
  have 1: "(\<exists>m. findKeywordMatches ?A ''C++ library'' = Inr m)
           \<and> findKeywordMatches (?A\<lparr>topicKeywords := [''c++'']\<rparr>) ''C++ library'' = Inl SyntaxError"
    by blast
  from C10_unescaped_keyword[of ?B "''C++ library''" ?R "[]"] b t d
  have 2: "(\<exists>e. findKeywordMatches ?B ''C++ library'' = Inl e) \<and> (\<exists>e. analyzeBatch ?B [?R] = Inl e)"
    by blast
  from 1 2 t l d show ?thesis by blast
qed

section \<open>Summaries: relevance and quota\<close>


text \<open>
  A repository whose score is not positive leaves \<^verbatim>\<open>analyzeSingleRepo\<close> without a summary,
  and the loops keep that for every record they collect.
\<close>

lemma analyzeSingleRepo_irrelevant:
  assumes "analyzeSingleRepo this r n = Inr a" and "relevanceScore a \<le> 0"
  shows "aiSummary a = None"
proof -
  from assms(1) obtain x where x: "basicAnalysis this r = Inr x"
    by (auto simp: analyzeSingleRepo_def split: sum.splits)
  have s: "aiSummary x = None" by (rule basicAnalysis_result(3)[OF x])
  from assms x s show ?thesis
    by (auto simp: analyzeSingleRepo_def split: sum.splits if_splits)
qed

lemma analyzeLoop_irrelevant:
  assumes "analyzeLoop this rs acc n = Inr out"
    and "\<forall>a \<in> set acc. relevanceScore a \<le> 0 \<longrightarrow> aiSummary a = None"
  shows "\<forall>a \<in> set out. relevanceScore a \<le> 0 \<longrightarrow> aiSummary a = None"
  using assms
proof (induction rs arbitrary: acc n)
  case Nil
  then show ?case by simp
next
  case (Cons r rs)
  show ?case
  proof (cases "analyzeSingleRepo this r n")
    case (Inr x)
    have "\<forall>a \<in> set (acc @ [x]). relevanceScore a \<le> 0 \<longrightarrow> aiSummary a = None"
      using Cons.prems(2) analyzeSingleRepo_irrelevant[OF Inr] by auto
    moreover from Cons.prems(1) Inr have
      "analyzeLoop this rs (acc @ [x]) (if truthy (aiSummary x) then n + 1 else n) = Inr out"
      by simp
    ultimately show ?thesis using Cons.IH by blast
  next
    case (Inl e)
    with Cons.prems(1) obtain x where x: "basicAnalysis this r = Inr x"
      and l: "analyzeLoop this rs (acc @ [x]) n = Inr out"
      by (auto split: sum.splits)
    have "\<forall>a \<in> set (acc @ [x]). relevanceScore a \<le> 0 \<longrightarrow> aiSummary a = None"
      using Cons.prems(2) basicAnalysis_result(3)[OF x] by auto
    with l show ?thesis using Cons.IH by blast
  qed
qed

lemma processBatches_irrelevant:
  assumes "processBatches ce sa bs acc w = (Inr out, w')"
    and "\<forall>a \<in> set acc. relevanceScore a \<le> 0 \<longrightarrow> aiSummary a = None"
  shows "\<forall>a \<in> set out. relevanceScore a \<le> 0 \<longrightarrow> aiSummary a = None"
  using assms
proof (induction bs arbitrary: acc w)
  case Nil
  then show ?case by simp
next
  case (Cons b bs)
  obtain eb w1 where e: "enrichBatch ce b w = (eb, w1)" by (cases "enrichBatch ce b w")
  with Cons.prems(1) obtain ab where ab: "analyzeBatch sa eb = Inr ab"
    and l: "processBatches ce sa bs (acc @ ab) w1 = (Inr out, w')"
    by (auto split: sum.splits)
  from ab have "\<forall>a \<in> set ab. relevanceScore a \<le> 0 \<longrightarrow> aiSummary a = None"
    using analyzeLoop_irrelevant[of sa eb "[]" 0 ab] by (simp add: analyzeBatch_def)
  with Cons.prems(2) have "\<forall>a \<in> set (acc @ ab). relevanceScore a \<le> 0 \<longrightarrow> aiSummary a = None"
    by auto
  with l show ?case using Cons.IH by blast
qed

lemma processBatchesStandalone_irrelevant:
  assumes "processBatchesStandalone ce sa bs i acc logged w = ((out, logged'), w')"
    and "\<forall>a \<in> set acc. relevanceScore a \<le> 0 \<longrightarrow> aiSummary a = None"
  shows "\<forall>a \<in> set out. relevanceScore a \<le> 0 \<longrightarrow> aiSummary a = None"
  using assms
proof (induction bs arbitrary: i acc logged w)
  case Nil
  then show ?case by simp
next
  case (Cons b bs)
  obtain eb w1 where e: "enrichBatch ce b w = (eb, w1)" by (cases "enrichBatch ce b w")
  show ?case
  proof (cases "analyzeBatch sa eb")
    case (Inl err)
    with Cons.prems(1) e have
      "processBatchesStandalone ce sa bs (i + 1) acc (logged @ [BatchFailed (i + 1) err]) w1
         = ((out, logged'), w')"
      by simp
    with Cons.prems(2) show ?thesis using Cons.IH by blast
  next
    case (Inr ab)
    with Cons.prems(1) e have
      l: "processBatchesStandalone ce sa bs (i + 1) (acc @ ab) logged w1 = ((out, logged'), w')"
      by simp
    from Inr have "\<forall>a \<in> set ab. relevanceScore a \<le> 0 \<longrightarrow> aiSummary a = None"
      using analyzeLoop_irrelevant[of sa eb "[]" 0 ab] by (simp add: analyzeBatch_def)
    with Cons.prems(2) have "\<forall>a \<in> set (acc @ ab). relevanceScore a \<le> 0 \<longrightarrow> aiSummary a = None"
      by auto
    with l show ?thesis using Cons.IH by blast
  qed
qed

text \<open>
  Claim C5.  A record whose relevance score is 0 (or less) has no summary: as returned by
  \<^verbatim>\<open>analyzeSingleRepo\<close> for every value of the summary counter and every analyzer (so
  every quota, feature flag and API key), as an element of what \<^verbatim>\<open>analyzeBatch\<close> returns,
  and as an element of the analysis results of a run of either orchestrator.
\<close>

theorem C5_no_summary_without_relevance:
  "(analyzeSingleRepo this r n = Inr a \<and> relevanceScore a \<le> 0 \<longrightarrow> aiSummary a = None)
   \<and> (analyzeBatch this rs = Inr out \<longrightarrow>
        (\<forall>a \<in> set out. relevanceScore a \<le> 0 \<longrightarrow> aiSummary a = None))
   \<and> (fst (PersonalizedRadar_analyzeRepos environment req (new_radar cfg repos) w) = Inr radar1 \<longrightarrow>
        (\<forall>a \<in> set (analysisResults radar1). relevanceScore a \<le> 0 \<longrightarrow> aiSummary a = None))
   \<and> (fst (StandaloneRadar_analyzeRepos environment req (new_radar cfg repos) w)
         = Inr (radar2, logged) \<longrightarrow>
        (\<forall>a \<in> set (analysisResults radar2). relevanceScore a \<le> 0 \<longrightarrow> aiSummary a = None))"
proof -
  have 2: "\<forall>a \<in> set out. relevanceScore a \<le> 0 \<longrightarrow> aiSummary a = None"
    if "analyzeBatch this rs = Inr out"
    using that analyzeLoop_irrelevant[of this rs "[]" 0 out] by (simp add: analyzeBatch_def)
  have 3: "\<forall>a \<in> set (analysisResults radar1). relevanceScore a \<le> 0 \<longrightarrow> aiSummary a = None"
    if "fst (PersonalizedRadar_analyzeRepos environment req (new_radar cfg repos) w) = Inr radar1"
  proof -
    from that obtain ce bs fr out w' where
      "processBatches ce (new_SmartAnalyzer environment cfg) bs [] w = (Inr out, w')"
      and "analysisResults radar1 = out"
      by (auto simp: PersonalizedRadar_analyzeRepos_def new_radar_def Let_def
               split: sum.splits prod.splits)
    with processBatches_irrelevant[of ce "new_SmartAnalyzer environment cfg" bs "[]" w out w']
    show ?thesis by simp
  qed
  have 4: "\<forall>a \<in> set (analysisResults radar2). relevanceScore a \<le> 0 \<longrightarrow> aiSummary a = None"
    if "fst (StandaloneRadar_analyzeRepos environment req (new_radar cfg repos) w)
          = Inr (radar2, logged)"
  proof -
    from that obtain ce bs out w' where
      "processBatchesStandalone ce (new_SmartAnalyzer environment cfg) bs 0 [] [] w
         = ((out, logged), w')"
      and "analysisResults radar2 = out"
      by (auto simp: StandaloneRadar_analyzeRepos_def new_radar_def Let_def
               split: sum.splits prod.splits)
    with processBatchesStandalone_irrelevant[of ce "new_SmartAnalyzer environment cfg" bs 0 "[]" "[]" w out logged w']
    show ?thesis by simp
  qed
  from analyzeSingleRepo_irrelevant[of this r n a] 2 3 4 show ?thesis by blast
qed


text \<open>
  With the keywords \<open>[AI]\<close>, summaries enabled and quota left, the repository described
  as \<open>web framework\<close> scores 0 and has no summary, alone, after a summarised repository
  in a batch, and in a run of either orchestrator.
\<close>

theorem C5_no_summary_without_relevance_witness:
  "analyzeSingleRepo (new_SmartAnalyzer bothTokens (keywordConfig [''AI'']))
     (plainRepo ''b/two'' None (Some ''web framework'')) 0
     = Inr (projr (analyzeSingleRepo (new_SmartAnalyzer bothTokens (keywordConfig [''AI'']))
                     (plainRepo ''b/two'' None (Some ''web framework'')) 0))
   \<and> relevanceScore (projr (analyzeSingleRepo (new_SmartAnalyzer bothTokens (keywordConfig [''AI'']))
                               (plainRepo ''b/two'' None (Some ''web framework'')) 0)) = 0
   \<and> aiSummary (projr (analyzeSingleRepo (new_SmartAnalyzer bothTokens (keywordConfig [''AI'']))
                          (plainRepo ''b/two'' None (Some ''web framework'')) 0)) = None
   \<and> map (\<lambda>a. (relevanceScore a, truthy (aiSummary a)))
        (projr (analyzeBatch (new_SmartAnalyzer bothTokens (keywordConfig [''AI'']))
                  [plainRepo ''a/one'' None (Some ''AI''),
                   plainRepo ''b/two'' None (Some ''web framework'')]))
       = [(5, True), (0, False)]
   \<and> aiSummary (projr (analyzeBatch (new_SmartAnalyzer bothTokens (keywordConfig [''AI'']))
                          [plainRepo ''a/one'' None (Some ''AI''),
                           plainRepo ''b/two'' None (Some ''web framework'')]) ! 1) = None
   \<and> aiSummary (analysisResults (projr (fst (PersonalizedRadar_analyzeRepos bothTokens notFound
                    (new_radar (keywordConfig [''AI''])
                       [plainRepo ''a/one'' None (Some ''AI''),
                        plainRepo ''b/two'' None (Some ''web framework'')]) ()))) ! 1) = None
   \<and> aiSummary (analysisResults (fst (projr (fst (StandaloneRadar_analyzeRepos bothTokens notFound
                    (new_radar (keywordConfig [''AI''])
                       [plainRepo ''a/one'' None (Some ''AI''),
                        plainRepo ''b/two'' None (Some ''web framework'')]) ())))) ! 1) = None"
proof -
  let ?A = "new_SmartAnalyzer bothTokens (keywordConfig [''AI''])"
  let ?R1 = "plainRepo ''a/one'' None (Some ''AI'')"
  let ?R2 = "plainRepo ''b/two'' None (Some ''web framework'')"
  let ?S = "analyzeSingleRepo ?A ?R2 0"
  let ?B = "analyzeBatch ?A [?R1, ?R2]"
  let ?P = "fst (PersonalizedRadar_analyzeRepos bothTokens notFound
                   (new_radar (keywordConfig [''AI'']) [?R1, ?R2]) ())"
  let ?Q = "fst (StandaloneRadar_analyzeRepos bothTokens notFound
                   (new_radar (keywordConfig [''AI'']) [?R1, ?R2]) ())"
  have s: "?S = Inr (projr ?S)" by code_simp
  have s0: "relevanceScore (projr ?S) = 0" by code_simp
  have b: "?B = Inr (projr ?B)" by code_simp
  have bm: "map (\<lambda>a. (relevanceScore a, truthy (aiSummary a))) (projr ?B) = [(5, True), (0, False)]"
    by code_simp
  have p: "?P = Inr (projr ?P)" by code_simp
  have q: "?Q = Inr (fst (projr ?Q), snd (projr ?Q))" by code_simp
  note inst = C5_no_summary_without_relevance[of ?A ?R2 0 "projr ?S" "[?R1, ?R2]" "projr ?B"
               bothTokens notFound "keywordConfig [''AI'']" "[?R1, ?R2]" "()" "projr ?P"
               "fst (projr ?Q)" "snd (projr ?Q)"]
  from inst s s0 have 1: "aiSummary (projr ?S) = None" by simp
  from inst b have "\<forall>a \<in> set (projr ?B). relevanceScore a \<le> 0 \<longrightarrow> aiSummary a = None"
    by blast
  moreover have "projr ?B ! 1 \<in> set (projr ?B)" by code_simp
  moreover have "relevanceScore (projr ?B ! 1) \<le> 0" by code_simp
  ultimately have 2: "aiSummary (projr ?B ! 1) = None" by blast
  from inst p have
    "\<forall>a \<in> set (analysisResults (projr ?P)). relevanceScore a \<le> 0 \<longrightarrow> aiSummary a = None"
    by blast
  moreover have "analysisResults (projr ?P) ! 1 \<in> set (analysisResults (projr ?P))"
    by code_simp
  moreover have "relevanceScore (analysisResults (projr ?P) ! 1) \<le> 0" by code_simp
  ultimately have 3: "aiSummary (analysisResults (projr ?P) ! 1) = None" by blast
  from inst q have
    "\<forall>a \<in> set (analysisResults (fst (projr ?Q))). relevanceScore a \<le> 0 \<longrightarrow> aiSummary a = None"
    by blast
  moreover have "analysisResults (fst (projr ?Q)) ! 1 \<in> set (analysisResults (fst (projr ?Q)))"
    by code_simp
  moreover have "relevanceScore (analysisResults (fst (projr ?Q)) ! 1) \<le> 0" by code_simp
  ultimately have 4: "aiSummary (analysisResults (fst (projr ?Q)) ! 1) = None" by blast
  from s s0 1 bm 2 3 4 show ?thesis by blast
qed

text \<open>
  Within one call of \<^verbatim>\<open>analyzeBatch\<close> the counter is the number of summaries so far, and
  a summary is generated only while it is below the quota: one call returns at most
  \<open>maxAISummaries\<close> summaries.
\<close>

lemma analyzeSingleRepo_summary_within_quota:
  assumes "analyzeSingleRepo this r n = Inr a" and "truthy (aiSummary a)"
  shows "n < maxAISummaries this"
proof -
  from assms(1) obtain x where x: "basicAnalysis this r = Inr x"
    by (auto simp: analyzeSingleRepo_def split: sum.splits)
  have "aiSummary x = None" by (rule basicAnalysis_result(3)[OF x])
  with assms x show ?thesis
    by (auto simp: analyzeSingleRepo_def truthy_def split: sum.splits if_splits)
qed

lemma analyzeLoop_quota:
  assumes "analyzeLoop this rs acc n = Inr out"
    and "int (aiSummarized acc) = n"
    and "n \<le> max 0 (maxAISummaries this)"
  shows "int (aiSummarized out) \<le> max 0 (maxAISummaries this)"
  using assms
proof (induction rs arbitrary: acc n)
  case Nil
  then show ?case by simp
next
  case (Cons r rs)
  show ?case
  proof (cases "analyzeSingleRepo this r n")
    case (Inr x)
    let ?n = "if truthy (aiSummary x) then n + 1 else n"
    from Cons.prems(1) Inr have l: "analyzeLoop this rs (acc @ [x]) ?n = Inr out" by simp
    have c: "int (aiSummarized (acc @ [x])) = ?n"
      using Cons.prems(2) by (simp add: aiSummarized_def)
    have "?n \<le> max 0 (maxAISummaries this)"
      using Cons.prems(3) analyzeSingleRepo_summary_within_quota[OF Inr] by auto
    from Cons.IH[OF l c this] show ?thesis .
  next
    case (Inl e)
    with Cons.prems(1) obtain x where x: "basicAnalysis this r = Inr x"
      and l: "analyzeLoop this rs (acc @ [x]) n = Inr out"
      by (auto split: sum.splits)
    have "aiSummary x = None" by (rule basicAnalysis_result(3)[OF x])
    then have c: "int (aiSummarized (acc @ [x])) = n"
      using Cons.prems(2) by (simp add: aiSummarized_def truthy_def)
    from Cons.IH[OF l c Cons.prems(3)] show ?thesis .
  qed
qed

lemma analyzeBatch_quota:
  "analyzeBatch this rs = Inr out \<Longrightarrow> int (aiSummarized out) \<le> max 0 (maxAISummaries this)"
  using analyzeLoop_quota[of this rs "[]" 0 out]
  by (simp add: analyzeBatch_def aiSummarized_def)

text \<open>
  Claim C1 does not hold of the orchestrators.  \<^verbatim>\<open>analyzeBatch\<close> starts its counter at 0 on
  every call, and both orchestrators call it once per batch.  With the default quota 10
  and eleven repositories that each match the keyword, a run of
  \<^verbatim>\<open>PersonalizedRadar.analyzeRepos\<close> (batches of 5) and a run of
  \<^verbatim>\<open>StandaloneRadar.analyzeRepos\<close> (batches of 3) each generate 11 summaries; one call of
  \<^verbatim>\<open>analyzeBatch\<close> on the eleven, as the test script calls it, generates 10.
\<close>

theorem C1_quota_is_per_batch:
  "maxAISummaries (new_SmartAnalyzer bothTokens (keywordConfig [''AI''])) = 10
   \<and> map_sum id (\<lambda>x. aiSummarized (analysisResults x))
        (fst (PersonalizedRadar_analyzeRepos bothTokens notFound
                (new_radar (keywordConfig [''AI''])
                   (replicate 11 (plainRepo ''a/one'' None (Some ''AI'')))) ()))
     = Inr 11
   \<and> map_sum id (\<lambda>x. aiSummarized (analysisResults (fst x)))
        (fst (StandaloneRadar_analyzeRepos bothTokens notFound
                (new_radar (keywordConfig [''AI''])
                   (replicate 11 (plainRepo ''a/one'' None (Some ''AI'')))) ()))
     = Inr 11
   \<and> map_sum id aiSummarized
        (analyzeBatch (new_SmartAnalyzer bothTokens (keywordConfig [''AI'']))
           (replicate 11 (plainRepo ''a/one'' None (Some ''AI''))))
     = Inr 10"
  by code_simp

section \<open>Enrichment of a batch\<close>


text \<open>
  One pass of the loop pushes \<open>enrichOrKeep\<close> of the repository and goes on in the world
  the attempt left.
\<close>

lemma enrichLoop_step:
  "enrichLoop this (r # rs) acc w
     = enrichLoop this rs (acc @ [enrichOrKeep this r w]) (snd (enrichSingleRepo this r w))"
  by (cases "enrichSingleRepo this r w") (auto simp: enrichOrKeep_def split: sum.splits)

lemma enrichLoop_acc:
  "enrichLoop this rs acc w
     = (acc @ fst (enrichLoop this rs [] w), snd (enrichLoop this rs [] w))"
proof (induction rs arbitrary: acc w)
  case Nil
  show ?case by simp
next
  case (Cons r rs)
  show ?case
    unfolding enrichLoop_step
    by (subst Cons.IH, subst (2 3) Cons.IH) simp
qed

lemma enrichLoop_length: "length (fst (enrichLoop this rs acc w)) = length acc + length rs"
proof (induction rs arbitrary: acc w)
  case Nil
  show ?case by simp
next
  case (Cons r rs)
  show ?case unfolding enrichLoop_step by (simp add: Cons.IH)
qed

lemma enrichLoop_append:
  "enrichLoop this (xs @ ys) acc w
     = enrichLoop this ys (fst (enrichLoop this xs acc w)) (snd (enrichLoop this xs acc w))"
proof (induction xs arbitrary: acc w)
  case Nil
  show ?case by simp
next
  case (Cons x xs)
  show ?case unfolding append_Cons enrichLoop_step by (rule Cons.IH)
qed

lemma enrichBatch_nth:
  assumes "i < length repos"
  shows "fst (enrichBatch this repos w) ! i
           = enrichOrKeep this (repos ! i) (snd (enrichBatch this (take i repos) w))"
proof -
  let ?pre = "enrichLoop this (take i repos) [] w"
  have split: "repos = take i repos @ repos ! i # drop (Suc i) repos"
    using assms by (simp add: id_take_nth_drop)
  have "enrichLoop this repos [] w
          = enrichLoop this (repos ! i # drop (Suc i) repos) (fst ?pre) (snd ?pre)"
    by (subst split) (rule enrichLoop_append)
  also have "\<dots> = enrichLoop this (drop (Suc i) repos)
                     (fst ?pre @ [enrichOrKeep this (repos ! i) (snd ?pre)])
                     (snd (enrichSingleRepo this (repos ! i) (snd ?pre)))"
    by (rule enrichLoop_step)
  finally have "fst (enrichLoop this repos [] w)
                  = (fst ?pre @ [enrichOrKeep this (repos ! i) (snd ?pre)])
                    @ fst (enrichLoop this (drop (Suc i) repos) []
                             (snd (enrichSingleRepo this (repos ! i) (snd ?pre))))"
    by (subst (asm) enrichLoop_acc) simp
  moreover have "length (fst ?pre) = i"
    using assms by (simp add: enrichLoop_length)
  ultimately show ?thesis
    by (simp add: enrichBatch_def nth_append)
qed

text \<open>
  \<^verbatim>\<open>enrichSingleRepo\<close> returns the repository itself unless both requests were answered,
  and never changes what the extractor delivered.
\<close>

lemma enrichSingleRepo_cases:
  assumes "fst (enrichSingleRepo this r v) = Inr e"
  shows "e = r
         \<or> (\<exists>owner repoName readme md v1.
               getReadmeContent this owner repoName v = (Inr readme, v1)
               \<and> fst (getRepoMetadata this owner repoName v1) = Inr md
               \<and> readmeContent e = Some readme \<and> topics e \<noteq> None)"
proof (cases "e = r")
  case True
  then show ?thesis by simp
next
  case False
  with assms obtain n readme v1 md v2 where
    a: "getReadmeContent this (the (element (split_on CHR ''/'' n) 0))
          (the (element (split_on CHR ''/'' n) 1)) v = (Inr readme, v1)"
    and b: "getRepoMetadata this (the (element (split_on CHR ''/'' n) 0))
          (the (element (split_on CHR ''/'' n) 1)) v1 = (Inr md, v2)"
    and c: "readmeContent e = Some readme" "topics e \<noteq> None"
    by (auto simp: enrichSingleRepo_def Let_def
             split: option.splits if_splits prod.splits sum.splits)
  from b have "fst (getRepoMetadata this (the (element (split_on CHR ''/'' n) 0))
          (the (element (split_on CHR ''/'' n) 1)) v1) = Inr md"
    by simp
  with a c show ?thesis by blast
qed

lemma enrichSingleRepo_keeps:
  assumes "fst (enrichSingleRepo this r v) = Inr e"
  shows "name e = name r \<and> url e = url r \<and> description e = description r
         \<and> language e = language r \<and> starsAdded e = starsAdded r \<and> stars e = stars r
         \<and> forks e = forks r"
  using assms
  by (auto simp: enrichSingleRepo_def Let_def split: option.splits if_splits prod.splits sum.splits)

text \<open>
  Claim C8.  \<^verbatim>\<open>enrichBatch\<close> returns as many records as the batch has, in the order of the
  batch: the record at position \<open>i\<close> comes from the attempt to enrich repository \<open>i\<close>, made
  in the world the attempts on the repositories before it left behind, whether they
  failed or not, so no failure keeps a later repository from its attempt.  When the
  attempt throws, the record is the repository itself.  In any case the record is the
  repository itself (the fields the enricher adds as absent as they were) unless its
  README request and its metadata request were both answered, and it always has the
  repository's name, URL, description, language and counters.
\<close>

theorem C8_enrichment_failure_isolated:
  "length (fst (enrichBatch this repos w)) = length repos
   \<and> (\<forall>i < length repos.
        fst (enrichBatch this repos w) ! i
          = enrichOrKeep this (repos ! i) (snd (enrichBatch this (take i repos) w)))
   \<and> (\<forall>r v. isl (fst (enrichSingleRepo this r v)) \<longrightarrow> enrichOrKeep this r v = r)
   \<and> (\<forall>r v. enrichOrKeep this r v = r
          \<or> (\<exists>owner repoName readme md v1.
                getReadmeContent this owner repoName v = (Inr readme, v1)
                \<and> fst (getRepoMetadata this owner repoName v1) = Inr md
                \<and> readmeContent (enrichOrKeep this r v) = Some readme
                \<and> topics (enrichOrKeep this r v) \<noteq> None))
   \<and> (\<forall>r v. name (enrichOrKeep this r v) = name r \<and> url (enrichOrKeep this r v) = url r
          \<and> description (enrichOrKeep this r v) = description r
          \<and> language (enrichOrKeep this r v) = language r
          \<and> starsAdded (enrichOrKeep this r v) = starsAdded r
          \<and> stars (enrichOrKeep this r v) = stars r \<and> forks (enrichOrKeep this r v) = forks r)"
proof -
  have 1: "length (fst (enrichBatch this repos w)) = length repos"
    by (simp add: enrichBatch_def enrichLoop_length)
  have 3: "enrichOrKeep this r v = r" if "isl (fst (enrichSingleRepo this r v))" for r v
    using that by (auto simp: enrichOrKeep_def split: sum.splits)
  have 4: "enrichOrKeep this r v = r
          \<or> (\<exists>owner repoName readme md v1.
                getReadmeContent this owner repoName v = (Inr readme, v1)
                \<and> fst (getRepoMetadata this owner repoName v1) = Inr md
                \<and> readmeContent (enrichOrKeep this r v) = Some readme
                \<and> topics (enrichOrKeep this r v) \<noteq> None)" for r v
  proof (cases "fst (enrichSingleRepo this r v)")
    case (Inl e)
    then show ?thesis by (simp add: enrichOrKeep_def)
  next
    case (Inr e)
    then have "enrichOrKeep this r v = e" by (simp add: enrichOrKeep_def)
    with enrichSingleRepo_cases[OF Inr] show ?thesis by simp
  qed
  have 5: "name (enrichOrKeep this r v) = name r \<and> url (enrichOrKeep this r v) = url r
          \<and> description (enrichOrKeep this r v) = description r
          \<and> language (enrichOrKeep this r v) = language r
          \<and> starsAdded (enrichOrKeep this r v) = starsAdded r
          \<and> stars (enrichOrKeep this r v) = stars r \<and> forks (enrichOrKeep this r v) = forks r"
    for r v
  proof (cases "fst (enrichSingleRepo this r v)")
    case (Inl e)
    then show ?thesis by (simp add: enrichOrKeep_def)
  next
    case (Inr e)
    then have "enrichOrKeep this r v = e" by (simp add: enrichOrKeep_def)
    with enrichSingleRepo_keeps[OF Inr] show ?thesis by simp
  qed
  from 1 enrichBatch_nth[of _ repos this w] 3 4 5 show ?thesis by blast
qed

text \<open>
  A batch of four: the requests for the first are rejected, the second is enriched, the
  fourth has no name and its attempt throws.  The first and the fourth come back as they
  were, the second with README text and topics.
\<close>

theorem C8_enrichment_failure_isolated_witness:
  "length (fst (enrichBatch partlyDownEnricher mixedBatch 0)) = 4
   \<and> fst (enrichBatch partlyDownEnricher mixedBatch 0) ! 0 = mixedBatch ! 0
   \<and> fst (enrichBatch partlyDownEnricher mixedBatch 0) ! 1
       = (mixedBatch ! 1)\<lparr>readmeContent := Some ''AI tools'', topics := Some [''ai''],
                           forksCount := Some 7\<rparr>
   \<and> isl (fst (enrichSingleRepo partlyDownEnricher (mixedBatch ! 3) 3))
   \<and> fst (enrichBatch partlyDownEnricher mixedBatch 0) ! 3 = mixedBatch ! 3"
proof -
  let ?out = "fst (enrichBatch partlyDownEnricher mixedBatch 0)"
  note inst = C8_enrichment_failure_isolated[of partlyDownEnricher mixedBatch 0]
  have n: "length mixedBatch = 4" by (simp add: mixedBatch_def)
  have i: "(0::nat) < length mixedBatch" "(1::nat) < length mixedBatch" "(3::nat) < length mixedBatch"
    by (simp_all add: n)
  from inst n have 1: "length ?out = 4" by simp
  from inst i(1) have "?out ! 0 = enrichOrKeep partlyDownEnricher (mixedBatch ! 0)
                                    (snd (enrichBatch partlyDownEnricher (take 0 mixedBatch) 0))"
    by blast
  also have "\<dots> = mixedBatch ! 0" by code_simp
  finally have 2: "?out ! 0 = mixedBatch ! 0" .
  from inst i(2) have "?out ! 1 = enrichOrKeep partlyDownEnricher (mixedBatch ! 1)
                                    (snd (enrichBatch partlyDownEnricher (take 1 mixedBatch) 0))"
    by blast
  also have "\<dots> = (mixedBatch ! 1)\<lparr>readmeContent := Some ''AI tools'', topics := Some [''ai''],
                                     forksCount := Some 7\<rparr>"
    by code_simp
  finally have 3: "?out ! 1 = (mixedBatch ! 1)\<lparr>readmeContent := Some ''AI tools'',
                                                topics := Some [''ai''], forksCount := Some 7\<rparr>" .
  have 4: "isl (fst (enrichSingleRepo partlyDownEnricher (mixedBatch ! 3) 3))" by code_simp
  have w3: "snd (enrichBatch partlyDownEnricher (take 3 mixedBatch) 0) = 3" by code_simp
  from inst i(3) have "?out ! 3 = enrichOrKeep partlyDownEnricher (mixedBatch ! 3)
                                    (snd (enrichBatch partlyDownEnricher (take 3 mixedBatch) 0))"
    by blast
  also from inst 4 have "\<dots> = mixedBatch ! 3" unfolding w3 by blast
  finally have 5: "?out ! 3 = mixedBatch ! 3" .
  from 1 2 3 4 5 show ?thesis by blast
qed


section \<open>A batch that throws\<close>

text \<open>
  Claim C7 does not hold of \<^verbatim>\<open>PersonalizedRadar.analyzeRepos\<close>, whose batch loop has no
  \<^verbatim>\<open>try\<close>.  With the keyword \<open>C++\<close> and six repositories of which only the first has a
  description, its first batch throws \<open>SyntaxError\<close> and the method throws with it, the
  second batch never run.  \<^verbatim>\<open>StandaloneRadar.analyzeRepos\<close> on the same input logs the
  failure of batch 1, omits its three repositories and returns the three of batch 2.
\<close>

theorem C7_batch_exception_aborts_run:
  "fst (PersonalizedRadar_analyzeRepos bothTokens notFound
          (new_radar (keywordConfig [''C++''])
             (plainRepo ''a/one'' None (Some ''C++ library'')
              # replicate 5 (plainRepo ''b/two'' None None))) ())
     = Inl SyntaxError
   \<and> map_sum id (\<lambda>x. (map name (analysisResults (fst x)), snd x))
        (fst (StandaloneRadar_analyzeRepos bothTokens notFound
                (new_radar (keywordConfig [''C++''])
                   (plainRepo ''a/one'' None (Some ''C++ library'')
                    # replicate 5 (plainRepo ''b/two'' None None))) ()))
     = Inr ([Some ''b/two'', Some ''b/two'', Some ''b/two''], [BatchFailed 1 SyntaxError])"
  by code_simp


text \<open>
  Once its enricher is constructed, \<^verbatim>\<open>StandaloneRadar.analyzeRepos\<close> returns whatever its
  batches do.
\<close>

lemma StandaloneRadar_returns:
  assumes "new_ContentEnricher environment req = Inr ce"
  shows "\<exists>result. fst (StandaloneRadar_analyzeRepos environment req this w) = Inr result"
  using assms
  by (simp add: StandaloneRadar_analyzeRepos_def Let_def split: prod.splits)

end
